theory Spec2Isabelle
  imports Main "HOL-Library.Word"
begin

unbundle bit_operations_syntax

section \<open>Data model\<close>

text \<open>
  \<^verbatim>\<open>guuid.UUID\<close> is \<^verbatim>\<open>[16]byte\<close>. It is modelled as a list of bytes; the array
  type's fixed size appears as the hypothesis \<open>length u = 16\<close> where a statement
  needs it. Go strings and byte slices are sequences of bytes: \<open>string\<close>.
\<close>

type_synonym byte = "8 word"
type_synonym uuid = "byte list"

text \<open>\<^verbatim>\<open>type ID struct { guuid.UUID }\<close>\<close>

record ID =
  UUID :: uuid

text \<open>\<^verbatim>\<open>type NullableID struct { ID ID; Valid bool }\<close>\<close>

record NullableID =
  ID :: ID
  Valid :: bool

text \<open>
  The dynamic values an \<^verbatim>\<open>interface{}\<close> argument of \<^verbatim>\<open>Scan\<close> can hold: the untyped
  nil, the three types the type switch names, and values of any other dynamic type
  (two common driver types, and a catch-all carrying the type's \<^verbatim>\<open>%T\<close> name).
\<close>

datatype go_value =
    is_GoNil: GoNil
  | is_GoString: GoString string
  | is_GoBytes: GoBytes string
  | is_GoUUID: GoUUID uuid
  | is_GoInt64: GoInt64 "64 word"
  | is_GoBool: GoBool bool
  | is_GoOther: GoOther string

fun go_typename :: "go_value \<Rightarrow> string" where
  "go_typename GoNil = ''<nil>''"
| "go_typename (GoString _) = ''string''"
| "go_typename (GoBytes _) = ''[]uint8''"
| "go_typename (GoUUID _) = ''uuid.UUID''"
| "go_typename (GoInt64 _) = ''int64''"
| "go_typename (GoBool _) = ''bool''"
| "go_typename (GoOther t) = t"

subsection \<open>Errors\<close>

text \<open>The errors of \<^verbatim>\<open>github.com/google/uuid\<close>'s \<^verbatim>\<open>Parse\<close>.\<close>

datatype uuid_error =
    InvalidLength nat
  | InvalidURNPrefix string
  | InvalidUUIDFormat

text \<open>The errors of \<^verbatim>\<open>shortuuid.DefaultEncoder.Decode\<close>.\<close>

datatype shortuuid_error =
    NotInAlphabet char
  | OutOfRange

text \<open>
  The errors the package returns: one constructor for each \<^verbatim>\<open>fmt.Errorf\<close> of
  \<^verbatim>\<open>id.go\<close> (with the wrapped cause), and the errors of \<^verbatim>\<open>json.Unmarshal\<close>, which
  \<^verbatim>\<open>UnmarshalJSON\<close> returns unwrapped.
\<close>

datatype error =
    FailedToDecodeShortuuid shortuuid_error
  | FailedToParseUuid uuid_error
  | FailedToScanUUIDString uuid_error
  | FailedToScanUUIDBytes uuid_error
  | CannotScanIntoID string
  | JSONError string

text \<open>
  The two error kinds of the specification, read off the errors of the code:
  a text that does not parse is \<open>InvalidFormat\<close>, a value of a shape \<^verbatim>\<open>Scan\<close> does not
  know is \<open>TypeMismatch\<close>.
\<close>

fun InvalidFormat :: "error \<Rightarrow> bool" where
  "InvalidFormat (FailedToDecodeShortuuid _) = True"
| "InvalidFormat (FailedToParseUuid _) = True"
| "InvalidFormat (FailedToScanUUIDString _) = True"
| "InvalidFormat (FailedToScanUUIDBytes _) = True"
| "InvalidFormat (CannotScanIntoID _) = False"
| "InvalidFormat (JSONError _) = False"

fun TypeMismatch :: "error \<Rightarrow> bool" where
  "TypeMismatch (CannotScanIntoID _) = True"
| "TypeMismatch _ = False"

section \<open>The imported package \<^verbatim>\<open>github.com/google/uuid\<close>\<close>

text \<open>
  \<^verbatim>\<open>id.go\<close> calls \<^verbatim>\<open>guuid.Parse\<close>, \<^verbatim>\<open>UUID.String\<close> and \<^verbatim>\<open>guuid.Nil\<close> of the imported
  package. Their sources are not part of the repository; the definitions below follow
  the package's published source (\<^verbatim>\<open>uuid.go\<close>, \<^verbatim>\<open>util.go\<close>).
\<close>

text \<open>\<^verbatim>\<open>var Nil UUID\<close>: sixteen zero bytes.\<close>

definition guuid_Nil :: uuid where
  "guuid_Nil = replicate 16 0"

text \<open>
  \<^verbatim>\<open>xvalues\<close> is a table of 256 bytes: the value of a hexadecimal digit at the digit's
  code, 255 elsewhere. It is written as the function it tabulates.
\<close>

definition xvalues :: "char \<Rightarrow> byte" where
  "xvalues c =
     (let n = (of_char c :: nat) in
      if 48 \<le> n \<and> n \<le> 57 then of_nat (n - 48)
      else if 65 \<le> n \<and> n \<le> 70 then of_nat (n - 55)
      else if 97 \<le> n \<and> n \<le> 102 then of_nat (n - 87)
      else 255)"

text \<open>
  \<^verbatim>\<open>func xtob(x1, x2 byte) (byte, bool) {
      b1 := xvalues[x1]; b2 := xvalues[x2]
      return (b1 << 4) | b2, b1 != 255 && b2 != 255 }\<close>
\<close>

definition xtob :: "char \<Rightarrow> char \<Rightarrow> byte \<times> bool" where
  "xtob x1 x2 =
     (let b1 = xvalues x1; b2 = xvalues x2
      in (push_bit 4 b1 OR b2, b1 \<noteq> 255 \<and> b2 \<noteq> 255))"

text \<open>
  The loops of \<^verbatim>\<open>Parse\<close>: \<^verbatim>\<open>for i, x := range [16]int{...} { v, ok := xtob(s[x], s[x+1]);
  if !ok { return uuid, errors.New("invalid UUID format") }; uuid[i] = v }\<close>.
  The positions are read in order and the first failure returns. Every caller has
  checked the length of \<open>s\<close>, so the reads are in range.
\<close>

fun parse_pairs :: "string \<Rightarrow> nat list \<Rightarrow> uuid_error + uuid" where
  "parse_pairs s [] = Inr []"
| "parse_pairs s (x # xs) =
     (case xtob (s ! x) (s ! (x + 1)) of
        (v, ok) \<Rightarrow>
          if \<not> ok then Inl InvalidUUIDFormat
          else (case parse_pairs s xs of
                  Inl e \<Rightarrow> Inl e
                | Inr vs \<Rightarrow> Inr (v # vs)))"

definition hyphenated_positions :: "nat list" where
  "hyphenated_positions = [0, 2, 4, 6, 9, 11, 14, 16, 19, 21, 24, 26, 28, 30, 32, 34]"

definition raw_positions :: "nat list" where
  "raw_positions = map (\<lambda>i. i * 2) [0..<16]"

text \<open>ASCII lower-casing, for \<^verbatim>\<open>strings.EqualFold(s[:9], "urn:uuid:")\<close>.\<close>

definition ascii_lower :: "char \<Rightarrow> char" where
  "ascii_lower c =
     (let n = (of_char c :: nat) in if 65 \<le> n \<and> n \<le> 90 then char_of (n + 32) else c)"

definition EqualFold :: "string \<Rightarrow> string \<Rightarrow> bool" where
  "EqualFold a b = (map ascii_lower a = map ascii_lower b)"

text \<open>
  The tail of \<^verbatim>\<open>Parse\<close>, reached with \<open>s\<close> at least 36 bytes long: the four hyphens,
  then the sixteen pairs of digits.
\<close>

definition parse_hyphenated :: "string \<Rightarrow> uuid_error + uuid" where
  "parse_hyphenated s =
     (if s ! 8 \<noteq> CHR ''-'' \<or> s ! 13 \<noteq> CHR ''-'' \<or> s ! 18 \<noteq> CHR ''-'' \<or> s ! 23 \<noteq> CHR ''-''
      then Inl InvalidUUIDFormat
      else parse_pairs s hyphenated_positions)"

text \<open>
  \<^verbatim>\<open>func Parse(s string) (UUID, error)\<close>: a switch on \<^verbatim>\<open>len(s)\<close>. Length 36 is the
  hyphenated form; 45 has the prefix \<^verbatim>\<open>urn:uuid:\<close> (compared with \<^verbatim>\<open>EqualFold\<close>), which is
  cut off; 38 is the form in braces, whose first byte is cut off (the bytes at both
  ends are not looked at); 32 is sixteen pairs of digits without hyphens; every
  other length is an error.
\<close>

definition guuid_Parse :: "string \<Rightarrow> uuid_error + uuid" where
  "guuid_Parse s =
     (if length s = 36 then parse_hyphenated s
      else if length s = 36 + 9 then
        (if \<not> EqualFold (take 9 s) ''urn:uuid:'' then Inl (InvalidURNPrefix (take 9 s))
         else parse_hyphenated (drop 9 s))
      else if length s = 36 + 2 then parse_hyphenated (drop 1 s)
      else if length s = 32 then parse_pairs s raw_positions
      else Inl (InvalidLength (length s)))"

text \<open>
  \<^verbatim>\<open>hex.Encode\<close>: two lower-case digits for each byte,
  \<^verbatim>\<open>hextable[v>>4]\<close> and \<^verbatim>\<open>hextable[v&0x0f]\<close>.
\<close>

definition hextable :: string where
  "hextable = ''0123456789abcdef''"

definition hex_Encode :: "byte list \<Rightarrow> string" where
  "hex_Encode src =
     concat (map (\<lambda>v. [hextable ! unat (drop_bit 4 v), hextable ! unat (v AND 0x0f)]) src)"

text \<open>
  \<^verbatim>\<open>func (uuid UUID) String() string\<close>, through \<^verbatim>\<open>encodeHex\<close>: the bytes 0..3, 4..5,
  6..7, 8..9 and 10..15 in hexadecimal, with a hyphen between the groups.
\<close>

definition guuid_String :: "uuid \<Rightarrow> string" where
  "guuid_String u =
     hex_Encode (take 4 u) @ ''-'' @
     hex_Encode (take 2 (drop 4 u)) @ ''-'' @
     hex_Encode (take 2 (drop 6 u)) @ ''-'' @
     hex_Encode (take 2 (drop 8 u)) @ ''-'' @
     hex_Encode (drop 10 u)"

section \<open>The imported package \<^verbatim>\<open>github.com/lithammer/shortuuid/v4\<close>\<close>

text \<open>
  \<^verbatim>\<open>id.go\<close> calls \<^verbatim>\<open>shortuuid.DefaultEncoder.Encode\<close> and \<^verbatim>\<open>Decode\<close>. Their sources are
  not part of the repository; the definitions below follow the package's published
  source (\<^verbatim>\<open>alphabet.go\<close>, \<^verbatim>\<open>base57.go\<close>): the UUID is read as one big-endian number and
  written in base 57 over \<^verbatim>\<open>DefaultAlphabet\<close>, most significant digit first, in 22
  characters. The literal pairs of the repository's test \<^verbatim>\<open>TestRealUUIDPairs\<close> fix
  alphabet, digit order and padding.
\<close>

definition DefaultAlphabet :: string where
  "DefaultAlphabet = ''23456789ABCDEFGHJKLMNPQRSTUVWXYZabcdefghijkmnopqrstuvwxyz''"

text \<open>\<^verbatim>\<open>alphabet.Index\<close>: the position of a character, or an error.\<close>

fun index_from :: "nat \<Rightarrow> string \<Rightarrow> char \<Rightarrow> nat option" where
  "index_from i [] t = None"
| "index_from i (c # cs) t = (if c = t then Some i else index_from (Suc i) cs t)"

definition alphabet_Index :: "char \<Rightarrow> shortuuid_error + nat" where
  "alphabet_Index t =
     (case index_from 0 DefaultAlphabet t of
        None \<Rightarrow> Inl (NotInAlphabet t)
      | Some i \<Rightarrow> Inr i)"

text \<open>The number a UUID stands for: its sixteen bytes, big-endian.\<close>

definition uuid_num :: "uuid \<Rightarrow> nat" where
  "uuid_num u = foldl (\<lambda>n b. n * 256 + unat b) 0 u"

text \<open>The sixteen big-endian bytes of a number below \<open>2 ^ 128\<close>.\<close>

definition num_uuid :: "nat \<Rightarrow> uuid" where
  "num_uuid n = map (\<lambda>i. of_nat (n div 256 ^ (15 - i))) [0..<16]"

text \<open>
  The loop of \<^verbatim>\<open>numToString\<close>: \<^verbatim>\<open>for number.Cmp(zero) > 0 {
  number, digit = DivMod(number, alphaLen); out = append(out, chars[digit]) }\<close>,
  least significant digit first.
\<close>

fun numToString_loop :: "nat \<Rightarrow> string" where
  "numToString_loop number =
     (if number > 0
      then DefaultAlphabet ! (number mod 57) # numToString_loop (number div 57)
      else [])"

declare numToString_loop.simps [simp del]

text \<open>
  \<^verbatim>\<open>numToString(number, padToLen)\<close>: the digits, then \<^verbatim>\<open>chars[0]\<close> repeated up to
  \<^verbatim>\<open>padToLen\<close>, then the whole reversed.
\<close>

definition numToString :: "nat \<Rightarrow> nat \<Rightarrow> string" where
  "numToString number padToLen =
     (let out = numToString_loop number
      in rev (out @ replicate (padToLen - length out) (DefaultAlphabet ! 0)))"

text \<open>\<^verbatim>\<open>Encode\<close>: the length is \<open>\<lceil>log 2^128 / log 57\<rceil> = 22\<close>.\<close>

definition shortuuid_Encode :: "uuid \<Rightarrow> string" where
  "shortuuid_Encode u = numToString (uuid_num u) 22"

text \<open>
  The loop of \<^verbatim>\<open>stringToNum\<close>: \<^verbatim>\<open>for _, char := range s { n.Mul(n, alphaLen);
  index, err := Index(char); if err != nil { return err }; n.Add(n, index) }\<close>.
  Go ranges over the characters of \<open>s\<close>, the model over its bytes: the alphabet is
  ASCII, so a character of several bytes is an error in both.
\<close>

fun stringToNum_loop :: "nat \<Rightarrow> string \<Rightarrow> shortuuid_error + nat" where
  "stringToNum_loop n [] = Inr n"
| "stringToNum_loop n (c # cs) =
     (case alphabet_Index c of
        Inl e \<Rightarrow> Inl e
      | Inr index \<Rightarrow> stringToNum_loop (n * 57 + index) cs)"

text \<open>
  \<^verbatim>\<open>Decode\<close>: the number of the string, which must fit 128 bits. A string shorter
  than 22 characters is accepted: its missing leading digits count as zero.
\<close>

definition shortuuid_Decode :: "string \<Rightarrow> shortuuid_error + uuid" where
  "shortuuid_Decode s =
     (case stringToNum_loop 0 s of
        Inl e \<Rightarrow> Inl e
      | Inr n \<Rightarrow> if n \<ge> 2 ^ 128 then Inl OutOfRange else Inr (num_uuid n))"

section \<open>\<^verbatim>\<open>id.go\<close>\<close>

text \<open>\<^verbatim>\<open>func FromUUID(u guuid.UUID) ID\<close>\<close>

definition FromUUID :: "uuid \<Rightarrow> ID" where
  "FromUUID u = \<lparr>UUID = u\<rparr>"

text \<open>The zero value \<^verbatim>\<open>ID{}\<close>.\<close>

definition ID_zero :: ID where
  "ID_zero = \<lparr>UUID = replicate 16 0\<rparr>"

text \<open>\<^verbatim>\<open>func Parse(s string) (ID, error)\<close>\<close>

definition Parse :: "string \<Rightarrow> error + ID" where
  "Parse s =
     (case shortuuid_Decode s of
        Inl err \<Rightarrow> Inl (FailedToDecodeShortuuid err)
      | Inr u \<Rightarrow> Inr \<lparr>UUID = u\<rparr>)"

text \<open>\<^verbatim>\<open>func FromString(s string) (ID, error)\<close>\<close>

definition FromString :: "string \<Rightarrow> error + ID" where
  "FromString s =
     (case guuid_Parse s of
        Inl err \<Rightarrow> Inl (FailedToParseUuid err)
      | Inr u \<Rightarrow> Inr \<lparr>UUID = u\<rparr>)"

text \<open>\<^verbatim>\<open>func (id ID) String() string\<close>\<close>

definition ID_String :: "ID \<Rightarrow> string" where
  "ID_String self = guuid_String (UUID self)"

text \<open>\<^verbatim>\<open>func (id ID) ShortString() string\<close>\<close>

definition ID_ShortString :: "ID \<Rightarrow> string" where
  "ID_ShortString self = shortuuid_Encode (UUID self)"

text \<open>
  \<^verbatim>\<open>encoding/json\<close> is the standard library. \<^verbatim>\<open>json.Marshal(nil)\<close> is the text
  \<^verbatim>\<open>null\<close>. The encoding of a string (which cannot fail) and the decoding into a
  string variable are parameters of the functions that use them:
  \<open>marshal_string s\<close> is the text \<^verbatim>\<open>json.Marshal(s)\<close> returns, and
  \<open>unmarshal_string data\<close> is the error of \<^verbatim>\<open>json.Unmarshal(data, &s)\<close> or the
  content of \<^verbatim>\<open>s\<close> after it.
\<close>

definition json_Marshal_nil :: string where
  "json_Marshal_nil = ''null''"

text \<open>\<^verbatim>\<open>func (id ID) MarshalJSON() ([]byte, error)\<close>\<close>

definition ID_MarshalJSON :: "(string \<Rightarrow> string) \<Rightarrow> ID \<Rightarrow> error + string" where
  "ID_MarshalJSON marshal_string self = Inr (marshal_string (ID_ShortString self))"

text \<open>
  \<^verbatim>\<open>func (id *ID) UnmarshalJSON(data []byte) error\<close>. A method on a pointer receiver
  returns its error (\<open>None\<close> for \<^verbatim>\<open>nil\<close>) and the receiver after the call.
\<close>

definition ID_UnmarshalJSON ::
  "(string \<Rightarrow> error + string) \<Rightarrow> ID \<Rightarrow> string \<Rightarrow> error option \<times> ID" where
  "ID_UnmarshalJSON unmarshal_string self data =
     (case unmarshal_string data of
        Inl err \<Rightarrow> (Some err, self)
      | Inr s \<Rightarrow>
          (case Parse s of
             Inl err \<Rightarrow> (Some err, self)
           | Inr parsed \<Rightarrow> (None, parsed)))"

text \<open>\<^verbatim>\<open>func (id ID) Value() (driver.Value, error)\<close>\<close>

definition ID_Value :: "ID \<Rightarrow> error + go_value" where
  "ID_Value self = Inr (GoString (guuid_String (UUID self)))"

text \<open>\<^verbatim>\<open>func (id *ID) Scan(value interface{}) error\<close>\<close>

fun ID_Scan :: "ID \<Rightarrow> go_value \<Rightarrow> error option \<times> ID" where
  "ID_Scan self GoNil = (None, ID_zero)"
| "ID_Scan self (GoString v) =
     (case guuid_Parse v of
        Inl err \<Rightarrow> (Some (FailedToScanUUIDString err), self)
      | Inr u \<Rightarrow> (None, \<lparr>UUID = u\<rparr>))"
| "ID_Scan self (GoBytes v) =
     (case guuid_Parse v of
        Inl err \<Rightarrow> (Some (FailedToScanUUIDBytes err), self)
      | Inr u \<Rightarrow> (None, \<lparr>UUID = u\<rparr>))"
| "ID_Scan self (GoUUID v) = (None, \<lparr>UUID = v\<rparr>)"
| "ID_Scan self value = (Some (CannotScanIntoID (go_typename value)), self)"

text \<open>\<^verbatim>\<open>func (id ID) IsZero() bool\<close>\<close>

definition ID_IsZero :: "ID \<Rightarrow> bool" where
  "ID_IsZero self = (UUID self = guuid_Nil)"

text \<open>\<^verbatim>\<open>func (id ID) Equal(other ID) bool\<close>\<close>

definition ID_Equal :: "ID \<Rightarrow> ID \<Rightarrow> bool" where
  "ID_Equal self other = (UUID self = UUID other)"

text \<open>\<^verbatim>\<open>func NewNullable(id ID) NullableID\<close>\<close>

definition NewNullable :: "ID \<Rightarrow> NullableID" where
  "NewNullable self = \<lparr>ID = self, Valid = \<not> ID_IsZero self\<rparr>"

text \<open>\<^verbatim>\<open>func NullableFromPtr(id *ID) NullableID\<close>; a nil pointer is \<open>None\<close>.\<close>

definition NullableFromPtr :: "ID option \<Rightarrow> NullableID" where
  "NullableFromPtr p =
     (case p of
        None \<Rightarrow> \<lparr>ID = ID_zero, Valid = False\<rparr>
      | Some self \<Rightarrow>
          if ID_IsZero self then \<lparr>ID = ID_zero, Valid = False\<rparr>
          else \<lparr>ID = self, Valid = True\<rparr>)"

text \<open>\<^verbatim>\<open>func (nid NullableID) Ptr() *ID\<close>\<close>

definition NullableID_Ptr :: "NullableID \<Rightarrow> ID option" where
  "NullableID_Ptr nid = (if \<not> Valid nid then None else Some (ID nid))"

text \<open>\<^verbatim>\<open>func (nid NullableID) MarshalJSON() ([]byte, error)\<close>\<close>

definition NullableID_MarshalJSON :: "(string \<Rightarrow> string) \<Rightarrow> NullableID \<Rightarrow> error + string" where
  "NullableID_MarshalJSON marshal_string nid =
     (if \<not> Valid nid then Inr json_Marshal_nil
      else ID_MarshalJSON marshal_string (ID nid))"

text \<open>
  \<^verbatim>\<open>func (nid *NullableID) UnmarshalJSON(data []byte) error\<close>; the local
  \<^verbatim>\<open>var id ID\<close> starts as the zero value.
\<close>

definition NullableID_UnmarshalJSON ::
  "(string \<Rightarrow> error + string) \<Rightarrow> NullableID \<Rightarrow> string \<Rightarrow> error option \<times> NullableID" where
  "NullableID_UnmarshalJSON unmarshal_string nid data =
     (if data = ''null'' then (None, nid\<lparr>Valid := False\<rparr>)
      else
        (case ID_UnmarshalJSON unmarshal_string ID_zero data of
           (Some err, _) \<Rightarrow> (Some err, nid)
         | (None, self) \<Rightarrow> (None, nid\<lparr>ID := self, Valid := True\<rparr>)))"

text \<open>\<^verbatim>\<open>func (nid NullableID) Value() (driver.Value, error)\<close>\<close>

definition NullableID_Value :: "NullableID \<Rightarrow> error + go_value" where
  "NullableID_Value nid = (if \<not> Valid nid then Inr GoNil else ID_Value (ID nid))"

text \<open>\<^verbatim>\<open>func (nid *NullableID) Scan(value interface{}) error\<close>\<close>

definition NullableID_Scan :: "NullableID \<Rightarrow> go_value \<Rightarrow> error option \<times> NullableID" where
  "NullableID_Scan nid value =
     (if value = GoNil then (None, nid\<lparr>Valid := False\<rparr>)
      else
        (case ID_Scan ID_zero value of
           (Some err, _) \<Rightarrow> (Some err, nid)
         | (None, self) \<Rightarrow> (None, nid\<lparr>ID := self, Valid := True\<rparr>)))"

section \<open>The repository's test \<^verbatim>\<open>TestRealUUIDPairs\<close>\<close>

text \<open>The table \<^verbatim>\<open>testPairs\<close> of the test: canonical text and compact text.\<close>

definition testPairs :: "(string \<times> string) list" where
  "testPairs =
     [(''8eca1fe1-a833-4de0-b487-b54785cc656e'', ''TR7kT7YgYjHN5ET8Yagssh''),
      (''dbf0e6e9-412d-4789-8042-b35d88d5fe80'', ''h9YNy27x6xdsqHTjMouA6s''),
      (''47934534-601a-4ea2-9f35-28d761dbe417'', ''EjtEAyHfuns4hG3SwZKMhc''),
      (''10fd962b-efd3-4725-b556-9a7caad7a40e'', ''53Kg5b2NMsBvKw8net9Mss''),
      (''00000000-0000-0000-0000-000000000000'', ''2222222222222222222222'')]"

text \<open>
  The body of the test for one pair: \<^verbatim>\<open>FromString(uuidStr)\<close> must succeed and its
  \<^verbatim>\<open>ShortString()\<close> be \<^verbatim>\<open>shortUUID\<close>; \<^verbatim>\<open>Parse(shortUUID)\<close> must succeed and its
  \<^verbatim>\<open>String()\<close> be \<^verbatim>\<open>uuidStr\<close>; the two IDs must be \<^verbatim>\<open>Equal\<close>.
\<close>

definition pair_passes :: "string \<Rightarrow> string \<Rightarrow> bool" where
  "pair_passes uuidStr shortUUID =
     (case FromString uuidStr of
        Inl err \<Rightarrow> False
      | Inr self \<Rightarrow>
          (case Parse shortUUID of
             Inl err \<Rightarrow> False
           | Inr parsedID \<Rightarrow>
               ID_ShortString self = shortUUID \<and>
               ID_String parsedID = uuidStr \<and>
               ID_Equal self parsedID))"

section \<open>The textual grammar of the specification\<close>

text \<open>A hexadecimal digit, in either case.\<close>

definition is_hex :: "char \<Rightarrow> bool" where
  "is_hex c = (c \<in> set ''0123456789abcdefABCDEF'')"


text \<open>
  The hyphenated layout as the specification words it: 36 characters, hexadecimal
  digits in groups of 8-4-4-4-12, separated by hyphens at the fixed positions 8, 13,
  18 and 23.
\<close>

definition canonical_layout :: "string \<Rightarrow> bool" where
  "canonical_layout s =
     (length s = 36 \<and>
      s ! 8 = CHR ''-'' \<and> s ! 13 = CHR ''-'' \<and> s ! 18 = CHR ''-'' \<and> s ! 23 = CHR ''-'' \<and>
      list_all (\<lambda>i. is_hex (s ! i)) ([0..<8] @ [9..<13] @ [14..<18] @ [19..<23] @ [24..<36]))"


section \<open>Hexadecimal digits\<close>

lemma upt16: "[0..<16] = [0,1,2,3,4,5,6,7,8,9,10,11,12,13,14,15]"
  by (simp add: upt_conv_Cons)

lemma xvalues_hextable:
  assumes "d < 16"
  shows "xvalues (hextable ! d) = of_nat d"
proof -
  from assms have "d \<in> set [0..<16]" by simp
  then have "d \<in> {0, 1, 2, 3, 4, 5, 6, 7} \<or> d \<in> {8, 9, 10, 11, 12, 13, 14, 15}"
    unfolding upt16 by auto
  then show ?thesis
  proof
    assume "d \<in> {0, 1, 2, 3, 4, 5, 6, 7}"
    then show ?thesis
      by (auto simp: xvalues_def hextable_def)
  next
    assume "d \<in> {8, 9, 10, 11, 12, 13, 14, 15}"
    then show ?thesis
      by (auto simp: xvalues_def hextable_def)
  qed
qed

lemma mask15: "(0x0f :: byte) = mask 4"
  by (simp add: mask_eq_exp_minus_1)

lemma hi_lt: "unat (drop_bit 4 (v::byte)) < 16"
proof -
  have "unat v < 2 ^ LENGTH(8)" by (rule unsigned_less)
  then have "unat v < 256" by simp
  then show ?thesis by (simp add: drop_bit_eq_div unat_div)
qed

lemma lo_lt: "unat ((v::byte) AND 0x0f) < 16"
  unfolding mask15 by (simp add: take_bit_eq_mod unat_mod flip: take_bit_eq_mask)

lemma join: "push_bit 4 (drop_bit 4 v) OR (v AND 0x0f) = (v::byte)"
  unfolding mask15 by (rule bit_word_eqI) (auto simp: bit_simps)

lemma xtob_hex: "xtob (hextable ! unat (drop_bit 4 v)) (hextable ! unat (v AND 0x0f)) = (v, True)"
proof -
  have a: "xvalues (hextable ! unat (drop_bit 4 v)) = drop_bit 4 v"
    using xvalues_hextable [OF hi_lt [of v]] by simp
  have b: "xvalues (hextable ! unat (v AND 0x0f)) = v AND 0x0f"
    using xvalues_hextable [OF lo_lt [of v]] by simp
  have c: "drop_bit 4 v \<noteq> 255"
    using hi_lt [of v] by auto
  have d: "v AND 0x0f \<noteq> 255"
    using lo_lt [of v] by auto
  show ?thesis
    unfolding xtob_def a b Let_def using c d join [of v] by simp
qed

lemma length16:
  assumes "length (u::'a list) = 16"
  obtains b0 b1 b2 b3 b4 b5 b6 b7 b8 b9 b10 b11 b12 b13 b14 b15
  where "u = [b0, b1, b2, b3, b4, b5, b6, b7, b8, b9, b10, b11, b12, b13, b14, b15]"
proof -
  from assms have "length u = Suc (Suc (Suc (Suc (Suc (Suc (Suc (Suc
     (Suc (Suc (Suc (Suc (Suc (Suc (Suc (Suc 0)))))))))))))))"
    by simp
  then show ?thesis
    using that by (auto simp: length_Suc_conv)
qed

lemma guuid_Parse_String:
  assumes "length u = 16"
  shows "guuid_Parse (guuid_String u) = Inr u"
proof -
  define H where "H = (\<lambda>v::byte. hextable ! unat (drop_bit 4 v))"
  define L where "L = (\<lambda>v::byte. hextable ! unat (v AND 0x0f))"
  have enc: "hex_Encode (v # vs) = H v # L v # hex_Encode vs" for v vs
    by (simp add: hex_Encode_def H_def L_def)
  have enc0: "hex_Encode [] = []"
    by (simp add: hex_Encode_def)
  have x: "xtob (H v) (L v) = (v, True)" for v
    unfolding H_def L_def by (rule xtob_hex)
  from assms obtain b0 b1 b2 b3 b4 b5 b6 b7 b8 b9 b10 b11 b12 b13 b14 b15
    where u: "u = [b0, b1, b2, b3, b4, b5, b6, b7, b8, b9, b10, b11, b12, b13, b14, b15]"
    by (rule length16)
  have s: "guuid_String u =
    [H b0, L b0, H b1, L b1, H b2, L b2, H b3, L b3, CHR ''-'',
     H b4, L b4, H b5, L b5, CHR ''-'',
     H b6, L b6, H b7, L b7, CHR ''-'',
     H b8, L b8, H b9, L b9, CHR ''-'',
     H b10, L b10, H b11, L b11, H b12, L b12, H b13, L b13, H b14, L b14, H b15, L b15]"
    by (simp add: u guuid_String_def enc enc0)
  show ?thesis
    unfolding s by (simp add: guuid_Parse_def parse_hyphenated_def hyphenated_positions_def x u)
qed

section \<open>The hyphenated layout\<close>

lemma is_hex_xvalues: "is_hex c \<longleftrightarrow> xvalues c \<noteq> 255"
proof
  assume "is_hex c"
  then show "xvalues c \<noteq> 255"
    by (auto simp: is_hex_def xvalues_def)
next
  assume a: "xvalues c \<noteq> 255"
  define n where "n = (of_char c :: nat)"
  have c: "c = char_of n" by (simp add: n_def)
  from a have "48 \<le> n \<and> n \<le> 57 \<or> 65 \<le> n \<and> n \<le> 70 \<or> 97 \<le> n \<and> n \<le> 102"
    unfolding xvalues_def Let_def n_def by (metis (full_types))
  then have "n = 48 \<or> n = 49 \<or> n = 50 \<or> n = 51 \<or> n = 52 \<or> n = 53 \<or> n = 54 \<or> n = 55 \<or>
     n = 56 \<or> n = 57 \<or> n = 65 \<or> n = 66 \<or> n = 67 \<or> n = 68 \<or> n = 69 \<or> n = 70 \<or>
     n = 97 \<or> n = 98 \<or> n = 99 \<or> n = 100 \<or> n = 101 \<or> n = 102"
    by arith
  then show "is_hex c"
    unfolding c by (elim disjE) (simp_all add: is_hex_def char_of_eq_iff)
qed

lemma parse_pairs_eq:
  "parse_pairs s xs =
     (if list_all (\<lambda>x. is_hex (s ! x) \<and> is_hex (s ! (x + 1))) xs
      then Inr (map (\<lambda>x. fst (xtob (s ! x) (s ! (x + 1)))) xs)
      else Inl InvalidUUIDFormat)"
  by (induction xs) (auto simp: is_hex_xvalues xtob_def Let_def)

lemma hex_positions:
  "[0..<8] @ [9..<13] @ [14..<18] @ [19..<23] @ [24..<36] =
   [0, 1, 2, 3, 4, 5, 6, 7, 9, 10, 11, 12, 14, 15, 16, 17, 19, 20, 21, 22,
    24, 25, 26, 27, 28, 29, 30, 31, 32, 33, 34, 35 :: nat]"
  by (simp add: upt_conv_Cons)

lemma canonical_layout_pairs:
  "canonical_layout s \<longleftrightarrow>
     length s = 36 \<and>
     \<not> (s ! 8 \<noteq> CHR ''-'' \<or> s ! 13 \<noteq> CHR ''-'' \<or> s ! 18 \<noteq> CHR ''-'' \<or> s ! 23 \<noteq> CHR ''-'') \<and>
     list_all (\<lambda>x. is_hex (s ! x) \<and> is_hex (s ! (x + 1))) hyphenated_positions"
  unfolding canonical_layout_def hyphenated_positions_def hex_positions
  by simp blast

lemma guuid_Parse_36:
  "length s = 36 \<Longrightarrow>
   guuid_Parse s =
     (if canonical_layout s
      then Inr (map (\<lambda>x. fst (xtob (s ! x) (s ! (x + 1)))) hyphenated_positions)
      else Inl InvalidUUIDFormat)"
  unfolding canonical_layout_pairs guuid_Parse_def parse_hyphenated_def parse_pairs_eq
  by simp

section \<open>Base 57\<close>

lemma index_from_nth:
  "distinct cs \<Longrightarrow> i < length cs \<Longrightarrow> index_from k cs (cs ! i) = Some (k + i)"
proof (induction cs arbitrary: i k)
  case Nil
  then show ?case by simp
next
  case (Cons c cs)
  show ?case
  proof (cases i)
    case 0
    then show ?thesis by simp
  next
    case (Suc j)
    with Cons.prems have "cs ! j \<in> set cs" "c \<notin> set cs" by auto
    then have "c \<noteq> cs ! j" by auto
    with Suc Cons show ?thesis by simp
  qed
qed

lemma index_from_None: "t \<notin> set cs \<Longrightarrow> index_from k cs t = None"
  by (induction cs arbitrary: k) auto

lemma index_from_Some: "index_from k cs t = Some i \<Longrightarrow> k \<le> i \<and> i < k + length cs \<and> t \<in> set cs"
proof (induction cs arbitrary: k)
  case Nil
  then show ?case by simp
next
  case (Cons c cs)
  show ?case
  proof (cases "c = t")
    case True
    with Cons.prems show ?thesis by simp
  next
    case False
    with Cons.prems have "index_from (Suc k) cs t = Some i" by simp
    from Cons.IH [OF this] show ?thesis by simp
  qed
qed

lemma DefaultAlphabet_distinct: "distinct DefaultAlphabet"
  by (simp add: DefaultAlphabet_def)

lemma DefaultAlphabet_length: "length DefaultAlphabet = 57"
  by (simp add: DefaultAlphabet_def)

lemma alphabet_Index_nth: "i < 57 \<Longrightarrow> alphabet_Index (DefaultAlphabet ! i) = Inr i"
  using index_from_nth [OF DefaultAlphabet_distinct, of i 0]
  by (simp add: alphabet_Index_def DefaultAlphabet_length)

lemma stringToNum_loop_append:
  "stringToNum_loop n (xs @ ys) =
     (case stringToNum_loop n xs of Inl e \<Rightarrow> Inl e | Inr m \<Rightarrow> stringToNum_loop m ys)"
  by (induction xs arbitrary: n) (auto split: sum.splits)

lemma stringToNum_loop_pad:
  "stringToNum_loop 0 (replicate k (DefaultAlphabet ! 0)) = Inr 0"
  by (induction k) (simp_all add: alphabet_Index_nth)

lemma stringToNum_loop_digits:
  "stringToNum_loop 0 (rev (numToString_loop n)) = Inr n"
proof (induction n rule: numToString_loop.induct)
  case (1 number)
  show ?case
  proof (cases "number > 0")
    case False
    then show ?thesis by (simp add: numToString_loop.simps)
  next
    case True
    have "numToString_loop number =
        DefaultAlphabet ! (number mod 57) # numToString_loop (number div 57)"
      using True by (subst numToString_loop.simps) simp
    then show ?thesis
      using 1 [OF True] by (simp add: stringToNum_loop_append alphabet_Index_nth)
  qed
qed

lemma stringToNum_numToString: "stringToNum_loop 0 (numToString n k) = Inr n"
  by (simp add: numToString_def Let_def stringToNum_loop_append stringToNum_loop_pad
      stringToNum_loop_digits)

section \<open>Bytes and numbers\<close>

lemma uuid_num_snoc: "uuid_num (u @ [b]) = uuid_num u * 256 + unat b"
  by (simp add: uuid_num_def)

lemma unat_byte_lt: "unat (b::byte) < 256"
proof -
  have "unat b < 2 ^ LENGTH(8)" by (rule unsigned_less)
  then show ?thesis by simp
qed

lemma uuid_num_bound: "uuid_num u < 256 ^ length u"
proof (induction u rule: rev_induct)
  case Nil
  then show ?case by (simp add: uuid_num_def)
next
  case (snoc b u)
  have "uuid_num u * 256 + unat b < (uuid_num u + 1) * 256"
    using unat_byte_lt [of b] by simp
  also have "\<dots> \<le> 256 ^ length u * 256"
    using snoc.IH by (intro mult_le_mono1) simp
  finally show ?case by (simp add: uuid_num_snoc)
qed

lemma byte_of_snoc: "(of_nat (n * 256 + unat b) :: byte) = b"
proof -
  have "unat (of_nat (n * 256 + unat b) :: byte) = (n * 256 + unat b) mod 2 ^ LENGTH(8)"
    by (rule unat_of_nat)
  also have "\<dots> = unat b"
    using unat_byte_lt [of b] by simp
  finally show ?thesis by (simp only: word_unat_eq_iff)
qed

lemma bytes_of_uuid_num:
  "map (\<lambda>i. of_nat (uuid_num u div 256 ^ (length u - 1 - i))) [0..<length u] = u"
proof (induction u rule: rev_induct)
  case Nil
  then show ?case by simp
next
  case (snoc b u)
  let ?n = "length u"
  let ?N = "uuid_num u"
  have step: "(?N * 256 + unat b) div 256 ^ (?n - i) = ?N div 256 ^ (?n - 1 - i)"
    if "i < ?n" for i
  proof -
    from that have e: "?n - i = Suc (?n - 1 - i)" by simp
    have "(?N * 256 + unat b) div 256 = ?N"
      using unat_byte_lt [of b] by simp
    then show ?thesis
      unfolding e by (simp add: div_mult2_eq)
  qed
  have "map (\<lambda>i. of_nat ((?N * 256 + unat b) div 256 ^ (?n - i))) [0..<?n]
      = map (\<lambda>i. of_nat (?N div 256 ^ (?n - 1 - i)) :: byte) [0..<?n]"
    by (rule map_cong) (simp_all add: step)
  with snoc.IH have "map (\<lambda>i. of_nat ((?N * 256 + unat b) div 256 ^ (?n - i))) [0..<?n] = u"
    by simp
  then show ?case
    by (simp add: uuid_num_snoc byte_of_snoc del: of_nat_add of_nat_mult)
qed

lemma num_uuid_uuid_num:
  assumes "length u = 16"
  shows "num_uuid (uuid_num u) = u"
  using bytes_of_uuid_num [of u] assms by (simp add: num_uuid_def)

section \<open>Round trips\<close>

lemma shortuuid_Decode_Encode:
  assumes "length u = 16"
  shows "shortuuid_Decode (shortuuid_Encode u) = Inr u"
proof -
  have "uuid_num u < 256 ^ 16"
    using uuid_num_bound [of u] assms by simp
  then have "\<not> uuid_num u \<ge> 2 ^ 128"
    by simp
  then show ?thesis
    by (simp add: shortuuid_Decode_def shortuuid_Encode_def stringToNum_numToString
        num_uuid_uuid_num [OF assms])
qed

text \<open>
  Claim C1. For every 128-bit UUID value \<open>x\<close>, decoding the compact encoding of \<open>x\<close>
  gives \<open>x\<close> back: \<^verbatim>\<open>Parse(FromUUID(x).ShortString())\<close> succeeds and its result equals
  \<^verbatim>\<open>FromUUID(x)\<close>.
\<close>

theorem compact_round_trip:
  assumes "length x = 16"
  shows "\<exists>y. Parse (ID_ShortString (FromUUID x)) = Inr y \<and> y = FromUUID x \<and>
             ID_Equal y (FromUUID x)"
  using shortuuid_Decode_Encode [OF assms]
  by (simp add: Parse_def ID_ShortString_def FromUUID_def ID_Equal_def)

theorem compact_round_trip_witness:
  "length [0x8e, 0xca, 0x1f, 0xe1, 0xa8, 0x33, 0x4d, 0xe0, 0xb4, 0x87, 0xb5, 0x47, 0x85, 0xcc, 0x65, 0x6e] = 16 \<and>
   (\<exists>y. Parse (ID_ShortString (FromUUID [0x8e, 0xca, 0x1f, 0xe1, 0xa8, 0x33, 0x4d, 0xe0, 0xb4, 0x87, 0xb5, 0x47, 0x85, 0xcc, 0x65, 0x6e])) = Inr y \<and> y = FromUUID [0x8e, 0xca, 0x1f, 0xe1, 0xa8, 0x33, 0x4d, 0xe0, 0xb4, 0x87, 0xb5, 0x47, 0x85, 0xcc, 0x65, 0x6e] \<and>
        ID_Equal y (FromUUID [0x8e, 0xca, 0x1f, 0xe1, 0xa8, 0x33, 0x4d, 0xe0, 0xb4, 0x87, 0xb5, 0x47, 0x85, 0xcc, 0x65, 0x6e]))"
  using compact_round_trip [of "[0x8e, 0xca, 0x1f, 0xe1, 0xa8, 0x33, 0x4d, 0xe0, 0xb4, 0x87, 0xb5, 0x47, 0x85, 0xcc, 0x65, 0x6e]"]
  by simp

text \<open>
  Claim C2. For every 128-bit UUID value \<open>x\<close>, parsing the canonical hyphenated text
  of \<open>x\<close> gives \<open>x\<close> back: \<^verbatim>\<open>FromString(FromUUID(x).String())\<close> succeeds and its result
  equals \<^verbatim>\<open>FromUUID(x)\<close>.
\<close>

theorem canonical_round_trip:
  assumes "length x = 16"
  shows "\<exists>y. FromString (ID_String (FromUUID x)) = Inr y \<and> y = FromUUID x \<and>
             ID_Equal y (FromUUID x)"
  using guuid_Parse_String [OF assms]
  by (simp add: FromString_def ID_String_def FromUUID_def ID_Equal_def)

theorem canonical_round_trip_witness:
  "length [0xdb, 0xf0, 0xe6, 0xe9, 0x41, 0x2d, 0x47, 0x89, 0x80, 0x42, 0xb3, 0x5d, 0x88, 0xd5, 0xfe, 0x80] = 16 \<and>
   (\<exists>y. FromString (ID_String (FromUUID [0xdb, 0xf0, 0xe6, 0xe9, 0x41, 0x2d, 0x47, 0x89, 0x80, 0x42, 0xb3, 0x5d, 0x88, 0xd5, 0xfe, 0x80])) = Inr y \<and> y = FromUUID [0xdb, 0xf0, 0xe6, 0xe9, 0x41, 0x2d, 0x47, 0x89, 0x80, 0x42, 0xb3, 0x5d, 0x88, 0xd5, 0xfe, 0x80] \<and>
        ID_Equal y (FromUUID [0xdb, 0xf0, 0xe6, 0xe9, 0x41, 0x2d, 0x47, 0x89, 0x80, 0x42, 0xb3, 0x5d, 0x88, 0xd5, 0xfe, 0x80]))"
  using canonical_round_trip [of "[0xdb, 0xf0, 0xe6, 0xe9, 0x41, 0x2d, 0x47, 0x89, 0x80, 0x42, 0xb3, 0x5d, 0x88, 0xd5, 0xfe, 0x80]"]
  by simp

section \<open>The literal pairs\<close>

lemma pair_passesI:
  assumes "guuid_Parse c = Inr b" and "length b = 16"
    and "shortuuid_Encode b = s" and "guuid_String b = c"
  shows "pair_passes c s"
proof -
  have "shortuuid_Decode (shortuuid_Encode b) = Inr b"
    using assms(2) by (rule shortuuid_Decode_Encode)
  then have "shortuuid_Decode s = Inr b"
    by (simp only: assms(3))
  then show ?thesis
    by (simp add: pair_passes_def FromString_def Parse_def ID_ShortString_def ID_String_def
        ID_Equal_def assms)
qed

lemma replicate22:
  "replicate 22 x =
     [x, x, x, x, x, x, x, x, x, x, x, x, x, x, x, x, x, x, x, x, x, x]"
  by (simp add: numeral_eq_Suc)

lemma pair1: "pair_passes ''8eca1fe1-a833-4de0-b487-b54785cc656e'' ''TR7kT7YgYjHN5ET8Yagssh''"
proof (rule pair_passesI)
  show "guuid_Parse ''8eca1fe1-a833-4de0-b487-b54785cc656e'' = Inr 
      [0x8e, 0xca, 0x1f, 0xe1, 0xa8, 0x33, 0x4d, 0xe0, 0xb4, 0x87, 0xb5, 0x47, 0x85, 0xcc, 0x65, 0x6e]"
    by (simp add: guuid_Parse_def parse_hyphenated_def hyphenated_positions_def xtob_def
        xvalues_def)
  show "length 
      [0x8e, 0xca, 0x1f, 0xe1, 0xa8, 0x33, 0x4d, 0xe0, 0xb4, 0x87, 0xb5, 0x47, 0x85, 0xcc, 0x65, 0x6e] = 16"
    by simp
  show "shortuuid_Encode 
      [0x8e, 0xca, 0x1f, 0xe1, 0xa8, 0x33, 0x4d, 0xe0, 0xb4, 0x87, 0xb5, 0x47, 0x85, 0xcc, 0x65, 0x6e] = ''TR7kT7YgYjHN5ET8Yagssh''"
    by (simp add: shortuuid_Encode_def uuid_num_def numToString_def DefaultAlphabet_def
        numToString_loop.simps)
  show "guuid_String 
      [0x8e, 0xca, 0x1f, 0xe1, 0xa8, 0x33, 0x4d, 0xe0, 0xb4, 0x87, 0xb5, 0x47, 0x85, 0xcc, 0x65, 0x6e] = ''8eca1fe1-a833-4de0-b487-b54785cc656e''"
    by (simp add: guuid_String_def hex_Encode_def hextable_def)
qed

lemma pair2: "pair_passes ''dbf0e6e9-412d-4789-8042-b35d88d5fe80'' ''h9YNy27x6xdsqHTjMouA6s''"
proof (rule pair_passesI)
  show "guuid_Parse ''dbf0e6e9-412d-4789-8042-b35d88d5fe80'' = Inr 
      [0xdb, 0xf0, 0xe6, 0xe9, 0x41, 0x2d, 0x47, 0x89, 0x80, 0x42, 0xb3, 0x5d, 0x88, 0xd5, 0xfe, 0x80]"
    by (simp add: guuid_Parse_def parse_hyphenated_def hyphenated_positions_def xtob_def
        xvalues_def)
  show "length 
      [0xdb, 0xf0, 0xe6, 0xe9, 0x41, 0x2d, 0x47, 0x89, 0x80, 0x42, 0xb3, 0x5d, 0x88, 0xd5, 0xfe, 0x80] = 16"
    by simp
  show "shortuuid_Encode 
      [0xdb, 0xf0, 0xe6, 0xe9, 0x41, 0x2d, 0x47, 0x89, 0x80, 0x42, 0xb3, 0x5d, 0x88, 0xd5, 0xfe, 0x80] = ''h9YNy27x6xdsqHTjMouA6s''"
    by (simp add: shortuuid_Encode_def uuid_num_def numToString_def DefaultAlphabet_def
        numToString_loop.simps)
  show "guuid_String 
      [0xdb, 0xf0, 0xe6, 0xe9, 0x41, 0x2d, 0x47, 0x89, 0x80, 0x42, 0xb3, 0x5d, 0x88, 0xd5, 0xfe, 0x80] = ''dbf0e6e9-412d-4789-8042-b35d88d5fe80''"
    by (simp add: guuid_String_def hex_Encode_def hextable_def)
qed

lemma pair3: "pair_passes ''47934534-601a-4ea2-9f35-28d761dbe417'' ''EjtEAyHfuns4hG3SwZKMhc''"
proof (rule pair_passesI)
  show "guuid_Parse ''47934534-601a-4ea2-9f35-28d761dbe417'' = Inr 
      [0x47, 0x93, 0x45, 0x34, 0x60, 0x1a, 0x4e, 0xa2, 0x9f, 0x35, 0x28, 0xd7, 0x61, 0xdb, 0xe4, 0x17]"
    by (simp add: guuid_Parse_def parse_hyphenated_def hyphenated_positions_def xtob_def
        xvalues_def)
  show "length 
      [0x47, 0x93, 0x45, 0x34, 0x60, 0x1a, 0x4e, 0xa2, 0x9f, 0x35, 0x28, 0xd7, 0x61, 0xdb, 0xe4, 0x17] = 16"
    by simp
  show "shortuuid_Encode 
      [0x47, 0x93, 0x45, 0x34, 0x60, 0x1a, 0x4e, 0xa2, 0x9f, 0x35, 0x28, 0xd7, 0x61, 0xdb, 0xe4, 0x17] = ''EjtEAyHfuns4hG3SwZKMhc''"
    by (simp add: shortuuid_Encode_def uuid_num_def numToString_def DefaultAlphabet_def
        numToString_loop.simps)
  show "guuid_String 
      [0x47, 0x93, 0x45, 0x34, 0x60, 0x1a, 0x4e, 0xa2, 0x9f, 0x35, 0x28, 0xd7, 0x61, 0xdb, 0xe4, 0x17] = ''47934534-601a-4ea2-9f35-28d761dbe417''"
    by (simp add: guuid_String_def hex_Encode_def hextable_def)
qed

lemma pair4: "pair_passes ''10fd962b-efd3-4725-b556-9a7caad7a40e'' ''53Kg5b2NMsBvKw8net9Mss''"
proof (rule pair_passesI)
  show "guuid_Parse ''10fd962b-efd3-4725-b556-9a7caad7a40e'' = Inr 
      [0x10, 0xfd, 0x96, 0x2b, 0xef, 0xd3, 0x47, 0x25, 0xb5, 0x56, 0x9a, 0x7c, 0xaa, 0xd7, 0xa4, 0x0e]"
    by (simp add: guuid_Parse_def parse_hyphenated_def hyphenated_positions_def xtob_def
        xvalues_def)
  show "length 
      [0x10, 0xfd, 0x96, 0x2b, 0xef, 0xd3, 0x47, 0x25, 0xb5, 0x56, 0x9a, 0x7c, 0xaa, 0xd7, 0xa4, 0x0e] = 16"
    by simp
  show "shortuuid_Encode 
      [0x10, 0xfd, 0x96, 0x2b, 0xef, 0xd3, 0x47, 0x25, 0xb5, 0x56, 0x9a, 0x7c, 0xaa, 0xd7, 0xa4, 0x0e] = ''53Kg5b2NMsBvKw8net9Mss''"
    by (simp add: shortuuid_Encode_def uuid_num_def numToString_def DefaultAlphabet_def
        numToString_loop.simps)
  show "guuid_String 
      [0x10, 0xfd, 0x96, 0x2b, 0xef, 0xd3, 0x47, 0x25, 0xb5, 0x56, 0x9a, 0x7c, 0xaa, 0xd7, 0xa4, 0x0e] = ''10fd962b-efd3-4725-b556-9a7caad7a40e''"
    by (simp add: guuid_String_def hex_Encode_def hextable_def)
qed

lemma pair5: "pair_passes ''00000000-0000-0000-0000-000000000000'' ''2222222222222222222222''"
proof (rule pair_passesI)
  show "guuid_Parse ''00000000-0000-0000-0000-000000000000'' = Inr 
      [0x00, 0x00, 0x00, 0x00, 0x00, 0x00, 0x00, 0x00, 0x00, 0x00, 0x00, 0x00, 0x00, 0x00, 0x00, 0x00]"
    by (simp add: guuid_Parse_def parse_hyphenated_def hyphenated_positions_def xtob_def
        xvalues_def)
  show "length 
      [0x00, 0x00, 0x00, 0x00, 0x00, 0x00, 0x00, 0x00, 0x00, 0x00, 0x00, 0x00, 0x00, 0x00, 0x00, 0x00] = 16"
    by simp
  show "shortuuid_Encode 
      [0x00, 0x00, 0x00, 0x00, 0x00, 0x00, 0x00, 0x00, 0x00, 0x00, 0x00, 0x00, 0x00, 0x00, 0x00, 0x00] = ''2222222222222222222222''"
    by (simp add: shortuuid_Encode_def uuid_num_def numToString_def DefaultAlphabet_def
        numToString_loop.simps
        replicate22)
  show "guuid_String 
      [0x00, 0x00, 0x00, 0x00, 0x00, 0x00, 0x00, 0x00, 0x00, 0x00, 0x00, 0x00, 0x00, 0x00, 0x00, 0x00] = ''00000000-0000-0000-0000-000000000000''"
    by (simp add: guuid_String_def hex_Encode_def hextable_def)
qed

text \<open>
  Claim C3. For each of the five literal pairs of \<^verbatim>\<open>TestRealUUIDPairs\<close> (the all-zero
  pair among them), \<^verbatim>\<open>FromString\<close> of the canonical string followed by \<^verbatim>\<open>ShortString\<close>
  gives exactly the paired compact string, and \<^verbatim>\<open>Parse\<close> of the compact string
  followed by \<^verbatim>\<open>String\<close> gives exactly the paired canonical string.
\<close>

theorem real_uuid_pairs:
  "list_all (\<lambda>(uuidStr, shortUUID). pair_passes uuidStr shortUUID) testPairs"
  by (simp add: testPairs_def pair1 pair2 pair3 pair4 pair5)

theorem real_uuid_pairs_witness:
  "pair_passes ''00000000-0000-0000-0000-000000000000'' ''2222222222222222222222'' \<and>
   pair_passes ''8eca1fe1-a833-4de0-b487-b54785cc656e'' ''TR7kT7YgYjHN5ET8Yagssh''"
  using real_uuid_pairs by (simp add: testPairs_def)

section \<open>The other forms \<^verbatim>\<open>guuid.Parse\<close> reads\<close>

lemma guuid_Parse_length:
  "length s \<noteq> 32 \<Longrightarrow> length s \<noteq> 36 \<Longrightarrow> length s \<noteq> 38 \<Longrightarrow> length s \<noteq> 45 \<Longrightarrow>
   guuid_Parse s = Inl (InvalidLength (length s))"
  by (simp add: guuid_Parse_def)

lemma EqualFold_length: "EqualFold p q \<Longrightarrow> length p = length q"
  unfolding EqualFold_def by (rule map_eq_imp_length_eq)

lemma guuid_Parse_urn:
  assumes "length s = 36" and "EqualFold p ''urn:uuid:''"
  shows "guuid_Parse (p @ s) = guuid_Parse s"
proof -
  have "length p = 9"
    using EqualFold_length [OF assms(2)] by simp
  with assms show ?thesis
    by (simp add: guuid_Parse_def)
qed

lemma parse_pairs_cong:
  "list_all (\<lambda>x. s ! x = t ! x \<and> s ! (x + 1) = t ! (x + 1)) xs \<Longrightarrow>
   parse_pairs s xs = parse_pairs t xs"
  by (induction xs) (simp_all split: prod.splits)

lemma guuid_Parse_braces:
  assumes "length s = 36"
  shows "guuid_Parse (a # s @ [b]) = guuid_Parse s"
proof -
  have n: "(s @ [b]) ! i = s ! i" if "i < 36" for i
    using that assms by (simp add: nth_append)
  have "parse_pairs (s @ [b]) hyphenated_positions = parse_pairs s hyphenated_positions"
    by (rule parse_pairs_cong) (simp add: hyphenated_positions_def n)
  then have "parse_hyphenated (s @ [b]) = parse_hyphenated s"
    by (simp add: parse_hyphenated_def n)
  with assms show ?thesis
    by (simp add: guuid_Parse_def)
qed

lemma urn_prefix: "EqualFold ''urn:uuid:'' ''urn:uuid:'' \<and> EqualFold ''URN:UUID:'' ''urn:uuid:''"
  by (simp add: EqualFold_def ascii_lower_def char_of_eq_iff)


lemma upt32:
  "[0..<32] = [0, 1, 2, 3, 4, 5, 6, 7, 8, 9, 10, 11, 12, 13, 14, 15, 16, 17, 18, 19, 20,
     21, 22, 23, 24, 25, 26, 27, 28, 29, 30, 31]"
  by (simp add: upt_conv_Cons)

lemma raw_positions_eq:
  "raw_positions = [0, 2, 4, 6, 8, 10, 12, 14, 16, 18, 20, 22, 24, 26, 28, 30]"
  by (simp add: raw_positions_def upt16)

lemma raw_pairs_all:
  assumes "length s = 32"
  shows "list_all (\<lambda>x. is_hex (s ! x) \<and> is_hex (s ! (x + 1))) raw_positions
           \<longleftrightarrow> list_all is_hex s"
proof -
  have "list_all is_hex s \<longleftrightarrow> list_all (\<lambda>i. is_hex (s ! i)) [0..<32]"
    using assms by (simp add: list_all_length)
  also have "\<dots> \<longleftrightarrow> list_all (\<lambda>x. is_hex (s ! x) \<and> is_hex (s ! (x + 1))) raw_positions"
    unfolding upt32 raw_positions_eq by simp
  finally show ?thesis by simp
qed

lemma guuid_Parse_32:
  "length s = 32 \<Longrightarrow>
   guuid_Parse s =
     (if list_all is_hex s
      then Inr (map (\<lambda>x. fst (xtob (s ! x) (s ! (x + 1)))) raw_positions)
      else Inl InvalidUUIDFormat)"
  using raw_pairs_all [of s] by (simp add: guuid_Parse_def parse_pairs_eq)

lemma canonical_layout_nth:
  assumes "canonical_layout s" and "i < 36"
  shows "s ! i = CHR ''-'' \<or> is_hex (s ! i)"
proof -
  have m: "set ([0..<8] @ [9..<13] @ [14..<18] @ [19..<23] @ [24..<36]) =
      {0..<8} \<union> {9..<13} \<union> {14..<18} \<union> {19..<23} \<union> {24..<36}"
    by (simp only: set_append set_upt Un_assoc)
  from assms(2) have "i = 8 \<or> i = 13 \<or> i = 18 \<or> i = 23 \<or>
      i < 8 \<or> 9 \<le> i \<and> i < 13 \<or> 14 \<le> i \<and> i < 18 \<or> 19 \<le> i \<and> i < 23 \<or>
      24 \<le> i \<and> i < 36"
    by arith
  then have "i \<in> set [8, 13, 18, 23] \<or>
      i \<in> set ([0..<8] @ [9..<13] @ [14..<18] @ [19..<23] @ [24..<36])"
    unfolding m by auto
  then show ?thesis
  proof
    assume "i \<in> set [8, 13, 18, 23]"
    with assms(1) show ?thesis
      by (auto simp: canonical_layout_def)
  next
    assume "i \<in> set ([0..<8] @ [9..<13] @ [14..<18] @ [19..<23] @ [24..<36])"
    with assms(1) have "is_hex (s ! i)"
      unfolding canonical_layout_def list_all_iff by blast
    then show ?thesis ..
  qed
qed

lemma altered_not_canonical:
  assumes "length s = 36" and "i < 36" and "\<not> is_hex c" and "c \<noteq> CHR ''-''"
  shows "\<not> canonical_layout (s[i := c])"
proof
  assume "canonical_layout (s[i := c])"
  from canonical_layout_nth [OF this assms(2)] assms show False
    by simp
qed

lemma hyphen_not_hex: "\<not> is_hex CHR ''-''"
  by (simp add: is_hex_def)

lemma truncated_rejected:
  assumes "canonical_layout s" and "n < 36"
  shows "guuid_Parse (take n s) = Inl (InvalidLength n) \<or>
         guuid_Parse (take n s) = Inl InvalidUUIDFormat"
proof (cases "n = 32")
  case True
  from assms(1) have l: "length s = 36" and h: "s ! 8 = CHR ''-''"
    by (simp_all add: canonical_layout_def)
  have len: "length (take n s) = 32"
    using True l by simp
  have "take n s ! 8 = CHR ''-''"
    using True h by simp
  then have "\<not> is_hex (take n s ! 8)"
    by (simp add: hyphen_not_hex)
  moreover have "8 < length (take n s)"
    using len by simp
  ultimately have "\<not> list_all is_hex (take n s)"
    unfolding list_all_length by blast
  then show ?thesis
    using guuid_Parse_32 [OF len] by simp
next
  case False
  from assms have "length (take n s) = n"
    by (simp add: canonical_layout_def)
  with False assms(2) show ?thesis
    by (simp add: guuid_Parse_def)
qed

lemma xvalues_ascii_lower: "xvalues (ascii_lower c) = xvalues c"
  by (auto simp: xvalues_def ascii_lower_def Let_def)

lemma xtob_ascii_lower: "xtob (ascii_lower a) (ascii_lower b) = xtob a b"
  by (simp add: xtob_def xvalues_ascii_lower)

lemma ascii_lower_hyphen: "ascii_lower c = CHR ''-'' \<longleftrightarrow> c = CHR ''-''"
proof (cases "65 \<le> (of_char c :: nat) \<and> (of_char c :: nat) \<le> 90")
  case True
  then have "ascii_lower c \<noteq> CHR ''-''" "c \<noteq> CHR ''-''"
    by (auto simp: ascii_lower_def Let_def char_of_eq_iff take_bit_eq_mod)
  then show ?thesis by simp
next
  case False
  then show ?thesis
    by (auto simp: ascii_lower_def Let_def)
qed

lemma parse_pairs_lower:
  "list_all (\<lambda>x. x + 1 < length s) xs \<Longrightarrow>
   parse_pairs (map ascii_lower s) xs = parse_pairs s xs"
  by (induction xs) (simp_all add: xtob_ascii_lower split: prod.splits)

lemma guuid_Parse_lower:
  assumes "length s = 36"
  shows "guuid_Parse (map ascii_lower s) = guuid_Parse s"
proof -
  have "parse_pairs (map ascii_lower s) hyphenated_positions = parse_pairs s hyphenated_positions"
    by (rule parse_pairs_lower) (simp add: hyphenated_positions_def assms)
  then show ?thesis
    using assms by (simp add: guuid_Parse_def parse_hyphenated_def ascii_lower_hyphen)
qed

section \<open>Compact strings that are rejected, and short ones that are not\<close>

lemma stringToNum_loop_bad:
  "c \<in> set t \<Longrightarrow> c \<notin> set DefaultAlphabet \<Longrightarrow> \<exists>d. stringToNum_loop n t = Inl (NotInAlphabet d)"
proof (induction t arbitrary: n)
  case Nil
  then show ?case by simp
next
  case (Cons a t)
  show ?case
  proof (cases "alphabet_Index a")
    case (Inl e)
    then show ?thesis
      by (auto simp: alphabet_Index_def split: option.splits)
  next
    case (Inr i)
    then have "a \<in> set DefaultAlphabet"
      by (auto simp: alphabet_Index_def dest: index_from_Some split: option.splits)
    with Cons.prems have "c \<in> set t" by auto
    from Cons.IH [OF this Cons.prems(2)] Inr show ?thesis by simp
  qed
qed

lemma stringToNum_loop_drop:
  "stringToNum_loop 0 (rev (drop j (numToString_loop n @ replicate p (DefaultAlphabet ! 0))))
     = Inr (n div 57 ^ j)"
proof (induction j arbitrary: n p)
  case 0
  show ?case
    by (simp add: stringToNum_loop_append stringToNum_loop_pad stringToNum_loop_digits)
next
  case (Suc j)
  show ?case
  proof (cases "n > 0")
    case True
    have e: "numToString_loop n = DefaultAlphabet ! (n mod 57) # numToString_loop (n div 57)"
      using True by (subst numToString_loop.simps) simp
    have "n div 57 ^ Suc j = n div 57 div 57 ^ j"
      by (simp add: div_mult2_eq)
    then show ?thesis
      unfolding e using Suc.IH [of "n div 57" p] by simp
  next
    case False
    then have z: "n = 0"
      by simp
    have z0: "numToString_loop 0 = []"
      by (simp add: numToString_loop.simps)
    have "stringToNum_loop 0 (replicate (p - Suc j) (DefaultAlphabet ! 0)) = Inr 0"
      by (rule stringToNum_loop_pad)
    then show ?thesis
      unfolding z z0 by simp
  qed
qed

lemma stringToNum_loop_take:
  "\<exists>m\<le>n. stringToNum_loop 0 (take k (numToString n p)) = Inr m"
proof -
  let ?L = "numToString_loop n @ replicate (p - length (numToString_loop n)) (DefaultAlphabet ! 0)"
  have "take k (numToString n p) = rev (drop (length ?L - k) ?L)"
    unfolding numToString_def Let_def by (rule take_rev)
  then have "stringToNum_loop 0 (take k (numToString n p)) = Inr (n div 57 ^ (length ?L - k))"
    by (simp only: stringToNum_loop_drop)
  moreover have "n div 57 ^ (length ?L - k) \<le> n"
    by (rule div_le_dividend)
  ultimately show ?thesis by blast
qed

lemma shortuuid_Decode_truncated:
  assumes "length u = 16"
  shows "\<exists>v. shortuuid_Decode (take k (shortuuid_Encode u)) = Inr v"
proof -
  obtain m where m: "m \<le> uuid_num u"
    and d: "stringToNum_loop 0 (take k (numToString (uuid_num u) 22)) = Inr m"
    using stringToNum_loop_take by blast
  have "uuid_num u < 256 ^ 16"
    using uuid_num_bound [of u] assms by simp
  with m have "\<not> m \<ge> 2 ^ 128" by simp
  with d show ?thesis
    by (simp add: shortuuid_Decode_def shortuuid_Encode_def)
qed

lemma replicate16:
  "replicate 16 x = [x, x, x, x, x, x, x, x, x, x, x, x, x, x, x, x]"
  by (simp add: numeral_eq_Suc)

lemma num_uuid_0: "num_uuid 0 = replicate 16 0"
  by (simp add: num_uuid_def upt16 replicate16)

lemma Parse_empty: "Parse [] = Inr ID_zero"
  by (simp add: Parse_def shortuuid_Decode_def num_uuid_0 ID_zero_def)

section \<open>Accepted and rejected texts\<close>

lemma FromString_rejects:
  assumes "guuid_Parse s = Inl e"
  shows "(\<exists>e. FromString s = Inl e \<and> InvalidFormat e) \<and>
         (\<exists>e. ID_Scan self (GoString s) = (Some e, self) \<and> InvalidFormat e) \<and>
         (\<exists>e. ID_Scan self (GoBytes s) = (Some e, self) \<and> InvalidFormat e)"
  using assms by (simp add: FromString_def)

lemma FromString_accepts:
  assumes "guuid_Parse s = Inr u"
  shows "(\<exists>y. FromString s = Inr y) \<and>
         fst (ID_Scan self (GoString s)) = None \<and>
         fst (ID_Scan self (GoBytes s)) = None"
  using assms by (simp add: FromString_def)

lemma canonical_example: "canonical_layout ''8eca1fe1-a833-4de0-b487-b54785cc656e''"
  unfolding canonical_layout_def hex_positions by (simp add: is_hex_def)

lemma not_canonical_example: "\<not> canonical_layout ''8eca1fe1-a833-4de0-b487-b54785cc656g''"
  unfolding canonical_layout_def hex_positions by (simp add: is_hex_def)

lemma raw_example: "list_all is_hex ''8eca1fe1a8334de0b487b54785cc656e''"
  by (simp add: is_hex_def)

lemma urn_example: "guuid_Parse ''urn:uuid:8eca1fe1-a833-4de0-b487-b54785cc656e'' =
    Inr [0x8e, 0xca, 0x1f, 0xe1, 0xa8, 0x33, 0x4d, 0xe0, 0xb4, 0x87, 0xb5, 0x47, 0x85, 0xcc, 0x65, 0x6e]"
  by (simp add: guuid_Parse_def parse_hyphenated_def hyphenated_positions_def xtob_def
      xvalues_def EqualFold_def ascii_lower_def)

lemma raw_parse_example: "guuid_Parse ''8eca1fe1a8334de0b487b54785cc656e'' =
    Inr [0x8e, 0xca, 0x1f, 0xe1, 0xa8, 0x33, 0x4d, 0xe0, 0xb4, 0x87, 0xb5, 0x47, 0x85, 0xcc, 0x65, 0x6e]"
  by (simp add: guuid_Parse_def raw_positions_eq xtob_def xvalues_def)

lemma not_hex_g: "\<not> is_hex CHR ''g''"
  by (simp add: is_hex_def)

lemma zero_not_in_alphabet: "CHR ''0'' \<notin> set DefaultAlphabet"
  by (simp add: DefaultAlphabet_def)

lemma truncated_compact_example:
  "shortuuid_Decode ''TR7kT7YgYjHN5'' =
     Inr [0x00, 0x00, 0x00, 0x00, 0x00, 0x00, 0x06, 0x53, 0xf4, 0x07, 0x52, 0xe3, 0x07, 0x01,
          0x05, 0x76]"
  by (simp add: shortuuid_Decode_def alphabet_Index_def DefaultAlphabet_def num_uuid_def upt16)

lemma guuid_Parse_45:
  assumes "length s = 45"
  shows "guuid_Parse s =
     (if \<not> EqualFold (take 9 s) ''urn:uuid:'' then Inl (InvalidURNPrefix (take 9 s))
      else guuid_Parse (drop 9 s))"
  using assms by (simp add: guuid_Parse_def)

lemma guuid_Parse_38:
  assumes "length s = 38"
  shows "guuid_Parse s = guuid_Parse (take 36 (drop 1 s))"
proof -
  let ?m = "take 36 (drop 1 s)"
  have n: "?m ! i = drop 1 s ! i" if "i < 36" for i
    using that by simp
  have "parse_pairs ?m hyphenated_positions = parse_pairs (drop 1 s) hyphenated_positions"
    by (rule parse_pairs_cong) (simp add: hyphenated_positions_def)
  then have "parse_hyphenated ?m = parse_hyphenated (drop 1 s)"
    by (simp add: parse_hyphenated_def)
  moreover have "length ?m = 36"
    using assms by simp
  ultimately show ?thesis
    using assms by (simp add: guuid_Parse_def)
qed

lemma guuid_Parse_canonical:
  "canonical_layout s \<Longrightarrow> \<exists>u. guuid_Parse s = Inr u"
  using guuid_Parse_36 [of s] by (simp add: canonical_layout_def)

lemma guuid_Parse_not_canonical:
  "length s = 36 \<Longrightarrow> \<not> canonical_layout s \<Longrightarrow> guuid_Parse s = Inl InvalidUUIDFormat"
  using guuid_Parse_36 [of s] by simp

lemma guuid_Parse_accepted:
  assumes "canonical_layout w \<or>
     (length w = 45 \<and> EqualFold (take 9 w) ''urn:uuid:'' \<and> canonical_layout (drop 9 w)) \<or>
     (length w = 38 \<and> canonical_layout (take 36 (drop 1 w))) \<or>
     (length w = 32 \<and> list_all is_hex w)"
  shows "\<exists>u. guuid_Parse w = Inr u"
  using assms
proof (elim disjE conjE)
  assume "canonical_layout w"
  then show ?thesis by (rule guuid_Parse_canonical)
next
  assume "length w = 45" "EqualFold (take 9 w) ''urn:uuid:''" "canonical_layout (drop 9 w)"
  then show ?thesis
    using guuid_Parse_canonical [of "drop 9 w"] by (simp add: guuid_Parse_45)
next
  assume "length w = 38" "canonical_layout (take 36 (drop 1 w))"
  then show ?thesis
    using guuid_Parse_canonical [of "take 36 (drop 1 w)"] by (simp add: guuid_Parse_38)
next
  assume "length w = 32" "list_all is_hex w"
  then show ?thesis
    by (simp add: guuid_Parse_32)
qed

lemma guuid_Parse_not_accepted:
  assumes "\<not> (canonical_layout v \<or>
     (length v = 45 \<and> EqualFold (take 9 v) ''urn:uuid:'' \<and> canonical_layout (drop 9 v)) \<or>
     (length v = 38 \<and> canonical_layout (take 36 (drop 1 v))) \<or>
     (length v = 32 \<and> list_all is_hex v))"
  shows "\<exists>e. guuid_Parse v = Inl e"
proof -
  consider "length v = 36" | "length v = 45" | "length v = 38" | "length v = 32"
    | "length v \<noteq> 32 \<and> length v \<noteq> 36 \<and> length v \<noteq> 38 \<and> length v \<noteq> 45"
    by blast
  then show ?thesis
  proof cases
    case 1
    with assms show ?thesis
      by (simp add: guuid_Parse_not_canonical)
  next
    case 2
    show ?thesis
    proof (cases "EqualFold (take 9 v) ''urn:uuid:''")
      case True
      with 2 assms have "\<not> canonical_layout (drop 9 v)" by simp
      moreover have "length (drop 9 v) = 36" using 2 by simp
      ultimately show ?thesis
        using 2 True by (simp add: guuid_Parse_45 guuid_Parse_not_canonical)
    next
      case False
      with 2 show ?thesis by (simp add: guuid_Parse_45)
    qed
  next
    case 3
    with assms have "\<not> canonical_layout (take 36 (drop 1 v))" by simp
    moreover have "length (take 36 (drop 1 v)) = 36" using 3 by simp
    ultimately show ?thesis
      using 3 by (simp add: guuid_Parse_38 guuid_Parse_not_canonical)
  next
    case 4
    with assms have "\<not> list_all is_hex v" by simp
    with 4 show ?thesis by (simp add: guuid_Parse_32)
  next
    case 5
    then show ?thesis by (simp add: guuid_Parse_length)
  qed
qed

lemma braces_example:
  "canonical_layout (take 36 (drop 1 ''{8eca1fe1-a833-4de0-b487-b54785cc656e}''))"
  using canonical_example by simp

lemma bad_prefix_example:
  "\<not> EqualFold (take 9 ''uri:uuid:8eca1fe1-a833-4de0-b487-b54785cc656e'') ''urn:uuid:''"
  by (simp add: EqualFold_def ascii_lower_def)

lemma not_raw_example: "\<not> list_all is_hex ''8eca1fe1a8334de0b487b54785cc656g''"
  by (simp add: is_hex_def)

text \<open>
  Claim C4, as amended. \<^verbatim>\<open>FromString\<close> and the string and byte branches of
  \<^verbatim>\<open>ID.Scan\<close> accept every text in the 36-character hyphenated hexadecimal layout, in
  either case of the digits (lower-casing a 36-character text does not change the
  result). The hyphenated layout is not the only form accepted. Exactly four forms
  are: the layout itself; the layout after a 9-character prefix that is \<^verbatim>\<open>urn:uuid:\<close>
  in any case; the layout between one leading and one trailing character (the form in
  braces); and 32 hexadecimal digits without hyphens. On every other text they return
  an \<open>InvalidFormat\<close> error, leaving the receiver of \<^verbatim>\<open>Scan\<close> as it was: on a
  36-character text that deviates from the layout, on a 45-character text with another
  prefix or a deviating rest, on a 38-character text whose middle deviates, on a
  32-character text with a character that is not a hexadecimal digit, and on every
  text of any other length.
\<close>

theorem canonical_parser_layout:
  "(canonical_layout s \<longrightarrow>
      (\<exists>y. FromString s = Inr y) \<and>
      fst (ID_Scan self (GoString s)) = None \<and>
      fst (ID_Scan self (GoBytes s)) = None) \<and>
   (length q = 36 \<longrightarrow> FromString (map ascii_lower q) = FromString q) \<and>
   (length t = 36 \<and> \<not> canonical_layout t \<longrightarrow>
      (\<exists>e. FromString t = Inl e \<and> InvalidFormat e) \<and>
      (\<exists>e. ID_Scan self (GoString t) = (Some e, self) \<and> InvalidFormat e) \<and>
      (\<exists>e. ID_Scan self (GoBytes t) = (Some e, self) \<and> InvalidFormat e)) \<and>
   (length r \<noteq> 32 \<and> length r \<noteq> 36 \<and> length r \<noteq> 38 \<and> length r \<noteq> 45 \<longrightarrow>
      (\<exists>e. FromString r = Inl e \<and> InvalidFormat e) \<and>
      (\<exists>e. ID_Scan self (GoString r) = (Some e, self) \<and> InvalidFormat e) \<and>
      (\<exists>e. ID_Scan self (GoBytes r) = (Some e, self) \<and> InvalidFormat e)) \<and>
   (canonical_layout s \<and> EqualFold p ''urn:uuid:'' \<longrightarrow> FromString (p @ s) = FromString s) \<and>
   (canonical_layout s \<longrightarrow> FromString (''{'' @ s @ ''}'') = FromString s) \<and>
   (length h = 32 \<and> list_all is_hex h \<longrightarrow> (\<exists>y. FromString h = Inr y)) \<and>
   (canonical_layout w \<or>
    (length w = 45 \<and> EqualFold (take 9 w) ''urn:uuid:'' \<and> canonical_layout (drop 9 w)) \<or>
    (length w = 38 \<and> canonical_layout (take 36 (drop 1 w))) \<or>
    (length w = 32 \<and> list_all is_hex w) \<longrightarrow>
      (\<exists>y. FromString w = Inr y) \<and>
      fst (ID_Scan self (GoString w)) = None \<and>
      fst (ID_Scan self (GoBytes w)) = None) \<and>
   (\<not> (canonical_layout v \<or>
       (length v = 45 \<and> EqualFold (take 9 v) ''urn:uuid:'' \<and> canonical_layout (drop 9 v)) \<or>
       (length v = 38 \<and> canonical_layout (take 36 (drop 1 v))) \<or>
       (length v = 32 \<and> list_all is_hex v)) \<longrightarrow>
      (\<exists>e. FromString v = Inl e \<and> InvalidFormat e) \<and>
      (\<exists>e. ID_Scan self (GoString v) = (Some e, self) \<and> InvalidFormat e) \<and>
      (\<exists>e. ID_Scan self (GoBytes v) = (Some e, self) \<and> InvalidFormat e))"
proof -
  have a: "canonical_layout s \<longrightarrow>
      (\<exists>y. FromString s = Inr y) \<and>
      fst (ID_Scan self (GoString s)) = None \<and>
      fst (ID_Scan self (GoBytes s)) = None"
  proof
    assume c: "canonical_layout s"
    then have "length s = 36" by (simp add: canonical_layout_def)
    from guuid_Parse_36 [OF this] c obtain u where "guuid_Parse s = Inr u" by simp
    then show "(\<exists>y. FromString s = Inr y) \<and>
      fst (ID_Scan self (GoString s)) = None \<and>
      fst (ID_Scan self (GoBytes s)) = None"
      by (rule FromString_accepts)
  qed
  have b: "length q = 36 \<longrightarrow> FromString (map ascii_lower q) = FromString q"
    by (simp add: FromString_def guuid_Parse_lower)
  have c: "length t = 36 \<and> \<not> canonical_layout t \<longrightarrow>
      (\<exists>e. FromString t = Inl e \<and> InvalidFormat e) \<and>
      (\<exists>e. ID_Scan self (GoString t) = (Some e, self) \<and> InvalidFormat e) \<and>
      (\<exists>e. ID_Scan self (GoBytes t) = (Some e, self) \<and> InvalidFormat e)"
  proof
    assume "length t = 36 \<and> \<not> canonical_layout t"
    then have "guuid_Parse t = Inl InvalidUUIDFormat"
      using guuid_Parse_36 [of t] by simp
    then show "(\<exists>e. FromString t = Inl e \<and> InvalidFormat e) \<and>
      (\<exists>e. ID_Scan self (GoString t) = (Some e, self) \<and> InvalidFormat e) \<and>
      (\<exists>e. ID_Scan self (GoBytes t) = (Some e, self) \<and> InvalidFormat e)"
      by (rule FromString_rejects)
  qed
  have d: "length r \<noteq> 32 \<and> length r \<noteq> 36 \<and> length r \<noteq> 38 \<and> length r \<noteq> 45 \<longrightarrow>
      (\<exists>e. FromString r = Inl e \<and> InvalidFormat e) \<and>
      (\<exists>e. ID_Scan self (GoString r) = (Some e, self) \<and> InvalidFormat e) \<and>
      (\<exists>e. ID_Scan self (GoBytes r) = (Some e, self) \<and> InvalidFormat e)"
  proof
    assume "length r \<noteq> 32 \<and> length r \<noteq> 36 \<and> length r \<noteq> 38 \<and> length r \<noteq> 45"
    then have "guuid_Parse r = Inl (InvalidLength (length r))"
      by (simp add: guuid_Parse_length)
    then show "(\<exists>e. FromString r = Inl e \<and> InvalidFormat e) \<and>
      (\<exists>e. ID_Scan self (GoString r) = (Some e, self) \<and> InvalidFormat e) \<and>
      (\<exists>e. ID_Scan self (GoBytes r) = (Some e, self) \<and> InvalidFormat e)"
      by (rule FromString_rejects)
  qed
  have e: "canonical_layout s \<and> EqualFold p ''urn:uuid:'' \<longrightarrow>
      FromString (p @ s) = FromString s"
    by (simp add: FromString_def guuid_Parse_urn canonical_layout_def)
  have f: "canonical_layout s \<longrightarrow> FromString (''{'' @ s @ ''}'') = FromString s"
    using guuid_Parse_braces [of s "CHR ''{''" "CHR ''}''"]
    by (simp add: FromString_def canonical_layout_def)
  have g: "length h = 32 \<and> list_all is_hex h \<longrightarrow> (\<exists>y. FromString h = Inr y)"
    by (simp add: FromString_def guuid_Parse_32)
  have i: "canonical_layout w \<or>
    (length w = 45 \<and> EqualFold (take 9 w) ''urn:uuid:'' \<and> canonical_layout (drop 9 w)) \<or>
    (length w = 38 \<and> canonical_layout (take 36 (drop 1 w))) \<or>
    (length w = 32 \<and> list_all is_hex w) \<longrightarrow>
      (\<exists>y. FromString w = Inr y) \<and>
      fst (ID_Scan self (GoString w)) = None \<and>
      fst (ID_Scan self (GoBytes w)) = None"
  proof
    assume "canonical_layout w \<or>
      (length w = 45 \<and> EqualFold (take 9 w) ''urn:uuid:'' \<and> canonical_layout (drop 9 w)) \<or>
      (length w = 38 \<and> canonical_layout (take 36 (drop 1 w))) \<or>
      (length w = 32 \<and> list_all is_hex w)"
    then obtain u where "guuid_Parse w = Inr u"
      using guuid_Parse_accepted by blast
    then show "(\<exists>y. FromString w = Inr y) \<and>
      fst (ID_Scan self (GoString w)) = None \<and>
      fst (ID_Scan self (GoBytes w)) = None"
      by (rule FromString_accepts)
  qed
  have j: "\<not> (canonical_layout v \<or>
       (length v = 45 \<and> EqualFold (take 9 v) ''urn:uuid:'' \<and> canonical_layout (drop 9 v)) \<or>
       (length v = 38 \<and> canonical_layout (take 36 (drop 1 v))) \<or>
       (length v = 32 \<and> list_all is_hex v)) \<longrightarrow>
      (\<exists>e. FromString v = Inl e \<and> InvalidFormat e) \<and>
      (\<exists>e. ID_Scan self (GoString v) = (Some e, self) \<and> InvalidFormat e) \<and>
      (\<exists>e. ID_Scan self (GoBytes v) = (Some e, self) \<and> InvalidFormat e)"
  proof
    assume "\<not> (canonical_layout v \<or>
       (length v = 45 \<and> EqualFold (take 9 v) ''urn:uuid:'' \<and> canonical_layout (drop 9 v)) \<or>
       (length v = 38 \<and> canonical_layout (take 36 (drop 1 v))) \<or>
       (length v = 32 \<and> list_all is_hex v))"
    then obtain e where "guuid_Parse v = Inl e"
      using guuid_Parse_not_accepted by blast
    then show "(\<exists>e. FromString v = Inl e \<and> InvalidFormat e) \<and>
      (\<exists>e. ID_Scan self (GoString v) = (Some e, self) \<and> InvalidFormat e) \<and>
      (\<exists>e. ID_Scan self (GoBytes v) = (Some e, self) \<and> InvalidFormat e)"
      by (rule FromString_rejects)
  qed
  from a b c d e f g i j show ?thesis by blast
qed

theorem canonical_parser_layout_witness:
  "canonical_layout ''8eca1fe1-a833-4de0-b487-b54785cc656e'' \<and>
   (\<exists>y. FromString ''8eca1fe1-a833-4de0-b487-b54785cc656e'' = Inr y) \<and>
   fst (ID_Scan ID_zero (GoString ''8eca1fe1-a833-4de0-b487-b54785cc656e'')) = None \<and>
   fst (ID_Scan ID_zero (GoBytes ''8eca1fe1-a833-4de0-b487-b54785cc656e'')) = None \<and>
   length ''8ECA1FE1-A833-4DE0-B487-B54785CC656E'' = 36 \<and>
   FromString (map ascii_lower ''8ECA1FE1-A833-4DE0-B487-B54785CC656E'') = FromString ''8ECA1FE1-A833-4DE0-B487-B54785CC656E'' \<and>
   length ''8eca1fe1-a833-4de0-b487-b54785cc656g'' = 36 \<and>
   \<not> canonical_layout ''8eca1fe1-a833-4de0-b487-b54785cc656g'' \<and>
   (\<exists>e. FromString ''8eca1fe1-a833-4de0-b487-b54785cc656g'' = Inl e \<and> InvalidFormat e) \<and>
   (\<exists>e. ID_Scan ID_zero (GoString ''8eca1fe1-a833-4de0-b487-b54785cc656g'') = (Some e, ID_zero) \<and> InvalidFormat e) \<and>
   length ''8eca1fe1'' \<noteq> 32 \<and> length ''8eca1fe1'' \<noteq> 36 \<and>
   length ''8eca1fe1'' \<noteq> 38 \<and> length ''8eca1fe1'' \<noteq> 45 \<and>
   (\<exists>e. FromString ''8eca1fe1'' = Inl e \<and> InvalidFormat e) \<and>
   EqualFold ''URN:UUID:'' ''urn:uuid:'' \<and>
   FromString (''URN:UUID:'' @ ''8eca1fe1-a833-4de0-b487-b54785cc656e'') = FromString ''8eca1fe1-a833-4de0-b487-b54785cc656e'' \<and>
   FromString (''{'' @ ''8eca1fe1-a833-4de0-b487-b54785cc656e'' @ ''}'') = FromString ''8eca1fe1-a833-4de0-b487-b54785cc656e'' \<and>
   length ''8eca1fe1a8334de0b487b54785cc656e'' = 32 \<and>
   list_all is_hex ''8eca1fe1a8334de0b487b54785cc656e'' \<and>
   (\<exists>y. FromString ''8eca1fe1a8334de0b487b54785cc656e'' = Inr y) \<and>
   length ''{8eca1fe1-a833-4de0-b487-b54785cc656e}'' = 38 \<and>
   canonical_layout (take 36 (drop 1 ''{8eca1fe1-a833-4de0-b487-b54785cc656e}'')) \<and>
   (\<exists>y. FromString ''{8eca1fe1-a833-4de0-b487-b54785cc656e}'' = Inr y) \<and>
   fst (ID_Scan ID_zero (GoString ''{8eca1fe1-a833-4de0-b487-b54785cc656e}'')) = None \<and>
   length ''8eca1fe1a8334de0b487b54785cc656g'' = 32 \<and>
   \<not> list_all is_hex ''8eca1fe1a8334de0b487b54785cc656g'' \<and>
   (\<exists>e. FromString ''8eca1fe1a8334de0b487b54785cc656g'' = Inl e \<and> InvalidFormat e) \<and>
   (\<exists>e. ID_Scan ID_zero (GoString ''8eca1fe1a8334de0b487b54785cc656g'') = (Some e, ID_zero) \<and>
        InvalidFormat e) \<and>
   length ''uri:uuid:8eca1fe1-a833-4de0-b487-b54785cc656e'' = 45 \<and>
   \<not> EqualFold (take 9 ''uri:uuid:8eca1fe1-a833-4de0-b487-b54785cc656e'') ''urn:uuid:'' \<and>
   (\<exists>e. FromString ''uri:uuid:8eca1fe1-a833-4de0-b487-b54785cc656e'' = Inl e \<and>
        InvalidFormat e)"
proof -
  note T = canonical_parser_layout
    [where s = "''8eca1fe1-a833-4de0-b487-b54785cc656e''" and self = ID_zero
       and q = "''8ECA1FE1-A833-4DE0-B487-B54785CC656E''"
       and t = "''8eca1fe1-a833-4de0-b487-b54785cc656g''" and r = "''8eca1fe1''"
       and p = "''URN:UUID:''" and h = "''8eca1fe1a8334de0b487b54785cc656e''"
       and w = "''{8eca1fe1-a833-4de0-b487-b54785cc656e}''"]
  have n32: "\<not> canonical_layout ''8eca1fe1a8334de0b487b54785cc656g''"
    by (simp add: canonical_layout_def)
  have n45: "\<not> canonical_layout ''uri:uuid:8eca1fe1-a833-4de0-b487-b54785cc656e''"
    by (simp add: canonical_layout_def)
  have r32: "(\<exists>e. FromString ''8eca1fe1a8334de0b487b54785cc656g'' = Inl e \<and> InvalidFormat e) \<and>
      (\<exists>e. ID_Scan ID_zero (GoString ''8eca1fe1a8334de0b487b54785cc656g'') = (Some e, ID_zero) \<and>
        InvalidFormat e)"
    using T [where v = "''8eca1fe1a8334de0b487b54785cc656g''"] n32 not_raw_example
    by simp
  have r45: "\<exists>e. FromString ''uri:uuid:8eca1fe1-a833-4de0-b487-b54785cc656e'' = Inl e \<and>
        InvalidFormat e"
    using T [where v = "''uri:uuid:8eca1fe1-a833-4de0-b487-b54785cc656e''"] n45
      bad_prefix_example
    by simp
  have rest: "canonical_layout ''8eca1fe1-a833-4de0-b487-b54785cc656e'' \<and>
   (\<exists>y. FromString ''8eca1fe1-a833-4de0-b487-b54785cc656e'' = Inr y) \<and>
   fst (ID_Scan ID_zero (GoString ''8eca1fe1-a833-4de0-b487-b54785cc656e'')) = None \<and>
   fst (ID_Scan ID_zero (GoBytes ''8eca1fe1-a833-4de0-b487-b54785cc656e'')) = None \<and>
   length ''8ECA1FE1-A833-4DE0-B487-B54785CC656E'' = 36 \<and>
   FromString (map ascii_lower ''8ECA1FE1-A833-4DE0-B487-B54785CC656E'') = FromString ''8ECA1FE1-A833-4DE0-B487-B54785CC656E'' \<and>
   length ''8eca1fe1-a833-4de0-b487-b54785cc656g'' = 36 \<and>
   \<not> canonical_layout ''8eca1fe1-a833-4de0-b487-b54785cc656g'' \<and>
   (\<exists>e. FromString ''8eca1fe1-a833-4de0-b487-b54785cc656g'' = Inl e \<and> InvalidFormat e) \<and>
   (\<exists>e. ID_Scan ID_zero (GoString ''8eca1fe1-a833-4de0-b487-b54785cc656g'') = (Some e, ID_zero) \<and> InvalidFormat e) \<and>
   length ''8eca1fe1'' \<noteq> 32 \<and> length ''8eca1fe1'' \<noteq> 36 \<and>
   length ''8eca1fe1'' \<noteq> 38 \<and> length ''8eca1fe1'' \<noteq> 45 \<and>
   (\<exists>e. FromString ''8eca1fe1'' = Inl e \<and> InvalidFormat e) \<and>
   EqualFold ''URN:UUID:'' ''urn:uuid:'' \<and>
   FromString (''URN:UUID:'' @ ''8eca1fe1-a833-4de0-b487-b54785cc656e'') = FromString ''8eca1fe1-a833-4de0-b487-b54785cc656e'' \<and>
   FromString (''{'' @ ''8eca1fe1-a833-4de0-b487-b54785cc656e'' @ ''}'') = FromString ''8eca1fe1-a833-4de0-b487-b54785cc656e'' \<and>
   length ''8eca1fe1a8334de0b487b54785cc656e'' = 32 \<and>
   list_all is_hex ''8eca1fe1a8334de0b487b54785cc656e'' \<and>
   (\<exists>y. FromString ''8eca1fe1a8334de0b487b54785cc656e'' = Inr y) \<and>
   length ''{8eca1fe1-a833-4de0-b487-b54785cc656e}'' = 38 \<and>
   canonical_layout (take 36 (drop 1 ''{8eca1fe1-a833-4de0-b487-b54785cc656e}'')) \<and>
   (\<exists>y. FromString ''{8eca1fe1-a833-4de0-b487-b54785cc656e}'' = Inr y) \<and>
   fst (ID_Scan ID_zero (GoString ''{8eca1fe1-a833-4de0-b487-b54785cc656e}'')) = None"
    using T [where v = "[]"] canonical_example not_canonical_example raw_example urn_prefix
      braces_example
    by simp
  from rest r32 r45 not_raw_example bad_prefix_example show ?thesis
    by simp
qed

text \<open>
  Claim C4 as stated fails: a text with the prefix \<^verbatim>\<open>urn:uuid:\<close> and a text of 32
  digits without hyphens are not in the hyphenated layout, and \<^verbatim>\<open>FromString\<close> and
  \<^verbatim>\<open>ID.Scan\<close> accept them.
\<close>

theorem canonical_parser_counterexample:
  "\<not> canonical_layout ''urn:uuid:8eca1fe1-a833-4de0-b487-b54785cc656e'' \<and>
   FromString ''urn:uuid:8eca1fe1-a833-4de0-b487-b54785cc656e'' =
     Inr \<lparr>UUID = [0x8e, 0xca, 0x1f, 0xe1, 0xa8, 0x33, 0x4d, 0xe0, 0xb4, 0x87, 0xb5, 0x47, 0x85, 0xcc, 0x65, 0x6e]\<rparr> \<and>
   \<not> canonical_layout ''8eca1fe1a8334de0b487b54785cc656e'' \<and>
   FromString ''8eca1fe1a8334de0b487b54785cc656e'' =
     Inr \<lparr>UUID = [0x8e, 0xca, 0x1f, 0xe1, 0xa8, 0x33, 0x4d, 0xe0, 0xb4, 0x87, 0xb5, 0x47, 0x85, 0xcc, 0x65, 0x6e]\<rparr> \<and>
   ID_Scan ID_zero (GoString ''8eca1fe1a8334de0b487b54785cc656e'') =
     (None, \<lparr>UUID = [0x8e, 0xca, 0x1f, 0xe1, 0xa8, 0x33, 0x4d, 0xe0, 0xb4, 0x87, 0xb5, 0x47, 0x85, 0xcc, 0x65, 0x6e]\<rparr>) \<and>
   ID_Scan ID_zero (GoBytes ''8eca1fe1a8334de0b487b54785cc656e'') =
     (None, \<lparr>UUID = [0x8e, 0xca, 0x1f, 0xe1, 0xa8, 0x33, 0x4d, 0xe0, 0xb4, 0x87, 0xb5, 0x47, 0x85, 0xcc, 0x65, 0x6e]\<rparr>)"
  by (simp add: canonical_layout_def FromString_def urn_example raw_parse_example)

text \<open>
  Claim C5, as amended. \<^verbatim>\<open>FromString\<close> returns an \<open>InvalidFormat\<close> error for the
  empty string, for a canonical text with one character replaced by a character that
  is neither a hexadecimal digit nor a hyphen, and for every proper prefix of a
  canonical text. \<^verbatim>\<open>Parse\<close> returns an \<open>InvalidFormat\<close> error for every string
  that contains a character outside the alphabet. \<^verbatim>\<open>Parse\<close> does not reject short
  input: the empty string decodes to the zero ID, and every prefix of a compact
  encoding decodes without error.
\<close>

theorem malformed_input_rejected:
  "(\<exists>e. FromString [] = Inl e \<and> InvalidFormat e) \<and>
   (canonical_layout s \<and> i < 36 \<and> \<not> is_hex c \<and> c \<noteq> CHR ''-'' \<longrightarrow>
      (\<exists>e. FromString (s[i := c]) = Inl e \<and> InvalidFormat e)) \<and>
   (canonical_layout s \<and> n < 36 \<longrightarrow>
      (\<exists>e. FromString (take n s) = Inl e \<and> InvalidFormat e)) \<and>
   (d \<in> set t \<and> d \<notin> set DefaultAlphabet \<longrightarrow>
      (\<exists>e. Parse t = Inl e \<and> InvalidFormat e)) \<and>
   Parse [] = Inr ID_zero \<and>
   (length x = 16 \<longrightarrow> (\<exists>y. Parse (take k (ID_ShortString (FromUUID x))) = Inr y))"
proof -
  have a: "\<exists>e. FromString [] = Inl e \<and> InvalidFormat e"
    by (simp add: FromString_def guuid_Parse_def)
  have b: "canonical_layout s \<and> i < 36 \<and> \<not> is_hex c \<and> c \<noteq> CHR ''-'' \<longrightarrow>
      (\<exists>e. FromString (s[i := c]) = Inl e \<and> InvalidFormat e)"
  proof
    assume h: "canonical_layout s \<and> i < 36 \<and> \<not> is_hex c \<and> c \<noteq> CHR ''-''"
    then have l: "length (s[i := c]) = 36"
      by (simp add: canonical_layout_def)
    from h have "length s = 36"
      by (simp add: canonical_layout_def)
    with h have "\<not> canonical_layout (s[i := c])"
      by (intro altered_not_canonical) simp_all
    with guuid_Parse_36 [OF l] show "\<exists>e. FromString (s[i := c]) = Inl e \<and> InvalidFormat e"
      by (simp add: FromString_def)
  qed
  have c: "canonical_layout s \<and> n < 36 \<longrightarrow>
      (\<exists>e. FromString (take n s) = Inl e \<and> InvalidFormat e)"
    using truncated_rejected [of s n] by (auto simp: FromString_def)
  have d: "d \<in> set t \<and> d \<notin> set DefaultAlphabet \<longrightarrow>
      (\<exists>e. Parse t = Inl e \<and> InvalidFormat e)"
  proof
    assume "d \<in> set t \<and> d \<notin> set DefaultAlphabet"
    then obtain d' where "stringToNum_loop 0 t = Inl (NotInAlphabet d')"
      using stringToNum_loop_bad [of d t 0] by blast
    then show "\<exists>e. Parse t = Inl e \<and> InvalidFormat e"
      by (simp add: Parse_def shortuuid_Decode_def)
  qed
  have e: "length x = 16 \<longrightarrow> (\<exists>y. Parse (take k (ID_ShortString (FromUUID x))) = Inr y)"
  proof
    assume "length x = 16"
    from shortuuid_Decode_truncated [OF this, of k]
    show "\<exists>y. Parse (take k (ID_ShortString (FromUUID x))) = Inr y"
      by (auto simp: Parse_def ID_ShortString_def FromUUID_def)
  qed
  from a b c d e Parse_empty show ?thesis by blast
qed

theorem malformed_input_rejected_witness:
  "canonical_layout ''8eca1fe1-a833-4de0-b487-b54785cc656e'' \<and>
   \<not> is_hex CHR ''g'' \<and>
   (\<exists>e. FromString (''8eca1fe1-a833-4de0-b487-b54785cc656e''[35 := CHR ''g'']) = Inl e \<and>
        InvalidFormat e) \<and>
   (\<exists>e. FromString (take 20 ''8eca1fe1-a833-4de0-b487-b54785cc656e'') = Inl e \<and> InvalidFormat e) \<and>
   CHR ''0'' \<in> set ''TR7kT7YgYjHN5ET8Yagss0'' \<and>
   CHR ''0'' \<notin> set DefaultAlphabet \<and>
   (\<exists>e. Parse ''TR7kT7YgYjHN5ET8Yagss0'' = Inl e \<and> InvalidFormat e) \<and>
   length [0x8e, 0xca, 0x1f, 0xe1, 0xa8, 0x33, 0x4d, 0xe0, 0xb4, 0x87, 0xb5, 0x47, 0x85, 0xcc, 0x65, 0x6e] = 16 \<and>
   (\<exists>y. Parse (take 13 (ID_ShortString (FromUUID
        [0x8e, 0xca, 0x1f, 0xe1, 0xa8, 0x33, 0x4d, 0xe0, 0xb4, 0x87, 0xb5, 0x47, 0x85, 0xcc, 0x65, 0x6e]))) = Inr y)"
  using malformed_input_rejected
    [where s = "''8eca1fe1-a833-4de0-b487-b54785cc656e''" and i = 35 and c = "CHR ''g''" and n = 20 and d = "CHR ''0''"
       and t = "''TR7kT7YgYjHN5ET8Yagss0''" and k = 13
       and x = "[0x8e, 0xca, 0x1f, 0xe1, 0xa8, 0x33, 0x4d, 0xe0, 0xb4, 0x87, 0xb5, 0x47, 0x85, 0xcc, 0x65, 0x6e]"]
    canonical_example not_hex_g zero_not_in_alphabet
  by simp

text \<open>
  Claim C5 as stated fails for \<^verbatim>\<open>Parse\<close>: the empty string and a compact string cut
  to 13 characters are decoded, with no error.
\<close>

theorem malformed_input_counterexample:
  "Parse [] = Inr ID_zero \<and>
   take 13 ''TR7kT7YgYjHN5ET8Yagssh'' = ''TR7kT7YgYjHN5'' \<and>
   Parse ''TR7kT7YgYjHN5'' =
     Inr \<lparr>UUID = [0x00, 0x00, 0x00, 0x00, 0x00, 0x00, 0x06, 0x53, 0xf4, 0x07, 0x52, 0xe3,
                  0x07, 0x01, 0x05, 0x76]\<rparr>"
proof -
  have "Parse ''TR7kT7YgYjHN5'' =
     Inr \<lparr>UUID = [0x00, 0x00, 0x00, 0x00, 0x00, 0x00, 0x06, 0x53, 0xf4, 0x07, 0x52, 0xe3,
                  0x07, 0x01, 0x05, 0x76]\<rparr>"
    by (simp add: Parse_def truncated_compact_example)
  with Parse_empty show ?thesis by simp
qed

section \<open>Storage reads and the nullable wrapper\<close>

text \<open>
  Claim C6, as amended. \<^verbatim>\<open>ID.Scan\<close> has a fourth accepted shape: a \<^verbatim>\<open>guuid.UUID\<close> value
  is stored as it is, with no error. For every value that is neither nil, a string, a
  byte slice nor a \<^verbatim>\<open>guuid.UUID\<close>, \<^verbatim>\<open>ID.Scan\<close> returns a \<open>TypeMismatch\<close> error and
  leaves the receiver as it was.
\<close>

theorem scan_type_mismatch:
  "ID_Scan self (GoUUID u) = (None, \<lparr>UUID = u\<rparr>) \<and>
   (\<not> is_GoNil v \<and> \<not> is_GoString v \<and> \<not> is_GoBytes v \<and> \<not> is_GoUUID v \<longrightarrow>
      (\<exists>e. ID_Scan self v = (Some e, self) \<and> TypeMismatch e))"
  by (cases v) simp_all

theorem scan_type_mismatch_witness:
  "\<not> is_GoNil (GoInt64 7) \<and> \<not> is_GoString (GoInt64 7) \<and> \<not> is_GoBytes (GoInt64 7) \<and>
   \<not> is_GoUUID (GoInt64 7) \<and>
   (\<exists>e. ID_Scan \<lparr>UUID = replicate 16 1\<rparr> (GoInt64 7) = (Some e, \<lparr>UUID = replicate 16 1\<rparr>) \<and>
        TypeMismatch e)"
  using scan_type_mismatch [of "\<lparr>UUID = replicate 16 1\<rparr>" "[]" "GoInt64 7"] by simp

text \<open>
  Claim C6 as stated fails: a \<^verbatim>\<open>guuid.UUID\<close> value is not nil, not a string and not a
  byte slice, and \<^verbatim>\<open>ID.Scan\<close> returns no error on it and overwrites the receiver.
\<close>

theorem scan_type_mismatch_counterexample:
  "\<not> is_GoNil (GoUUID (replicate 16 1)) \<and> \<not> is_GoString (GoUUID (replicate 16 1)) \<and>
   \<not> is_GoBytes (GoUUID (replicate 16 1)) \<and>
   fst (ID_Scan ID_zero (GoUUID (replicate 16 1))) = None \<and>
   snd (ID_Scan ID_zero (GoUUID (replicate 16 1))) \<noteq> ID_zero"
  by (simp add: ID_zero_def)

text \<open>
  Claim C7. Reading a storage null never fails: \<^verbatim>\<open>ID.Scan(nil)\<close> returns no error and
  sets the receiver to the zero ID, and \<^verbatim>\<open>NullableID.Scan(nil)\<close> returns no error and
  marks the receiver invalid.
\<close>

theorem scan_nil_never_fails:
  "fst (ID_Scan self GoNil) = None \<and>
   snd (ID_Scan self GoNil) = ID_zero \<and>
   ID_IsZero (snd (ID_Scan self GoNil)) \<and>
   fst (NullableID_Scan nid GoNil) = None \<and>
   \<not> Valid (snd (NullableID_Scan nid GoNil))"
  by (simp add: NullableID_Scan_def ID_IsZero_def ID_zero_def guuid_Nil_def)

text \<open>
  Claim C8. \<^verbatim>\<open>NewNullable\<close> of the zero ID is invalid and \<^verbatim>\<open>NewNullable\<close> of any
  non-zero ID is valid; unmarshaling the JSON text \<^verbatim>\<open>null\<close> into a \<^verbatim>\<open>NullableID\<close>
  returns no error and leaves it invalid; marshaling an invalid \<^verbatim>\<open>NullableID\<close>
  gives exactly the text \<^verbatim>\<open>null\<close>, with no error.
\<close>

theorem nullability_invariant:
  "\<not> Valid (NewNullable ID_zero) \<and>
   (UUID x \<noteq> guuid_Nil \<longrightarrow> Valid (NewNullable x)) \<and>
   fst (NullableID_UnmarshalJSON unmarshal_string nid ''null'') = None \<and>
   \<not> Valid (snd (NullableID_UnmarshalJSON unmarshal_string nid ''null'')) \<and>
   (\<not> Valid nid \<longrightarrow> NullableID_MarshalJSON marshal_string nid = Inr ''null'')"
  by (simp add: NewNullable_def ID_IsZero_def ID_zero_def guuid_Nil_def
      NullableID_UnmarshalJSON_def NullableID_MarshalJSON_def json_Marshal_nil_def)

theorem nullability_invariant_witness:
  "UUID \<lparr>UUID = replicate 16 1\<rparr> \<noteq> guuid_Nil \<and>
   Valid (NewNullable \<lparr>UUID = replicate 16 1\<rparr>) \<and>
   \<not> Valid \<lparr>ID = \<lparr>UUID = replicate 16 1\<rparr>, Valid = False\<rparr> \<and>
   NullableID_MarshalJSON (\<lambda>s. s) \<lparr>ID = \<lparr>UUID = replicate 16 1\<rparr>, Valid = False\<rparr> = Inr ''null''"
  using nullability_invariant
    [of "\<lparr>UUID = replicate 16 1\<rparr>" "\<lambda>s. Inr s"
        "\<lparr>ID = \<lparr>UUID = replicate 16 1\<rparr>, Valid = False\<rparr>" "\<lambda>s. s"]
  by (simp add: guuid_Nil_def)

text \<open>
  Claim C9. Atomicity on error: whenever \<^verbatim>\<open>ID.UnmarshalJSON\<close>, \<^verbatim>\<open>ID.Scan\<close>,
  \<^verbatim>\<open>NullableID.UnmarshalJSON\<close> or \<^verbatim>\<open>NullableID.Scan\<close> returns an error, the receiver
  (the stored value and, for \<^verbatim>\<open>NullableID\<close>, the \<^verbatim>\<open>Valid\<close> flag) is exactly what it was
  before the call. This holds whatever \<^verbatim>\<open>json.Unmarshal\<close> does.
\<close>

theorem error_leaves_receiver:
  "(fst (ID_UnmarshalJSON unmarshal_string self data) \<noteq> None \<longrightarrow>
      snd (ID_UnmarshalJSON unmarshal_string self data) = self) \<and>
   (fst (ID_Scan self v) \<noteq> None \<longrightarrow> snd (ID_Scan self v) = self) \<and>
   (fst (NullableID_UnmarshalJSON unmarshal_string nid data) \<noteq> None \<longrightarrow>
      snd (NullableID_UnmarshalJSON unmarshal_string nid data) = nid) \<and>
   (fst (NullableID_Scan nid v) \<noteq> None \<longrightarrow> snd (NullableID_Scan nid v) = nid)"
proof -
  have a: "fst (ID_UnmarshalJSON unmarshal_string self data) \<noteq> None \<longrightarrow>
      snd (ID_UnmarshalJSON unmarshal_string self data) = self"
    by (simp add: ID_UnmarshalJSON_def split: sum.splits)
  have b: "fst (ID_Scan self v) \<noteq> None \<longrightarrow> snd (ID_Scan self v) = self"
    by (cases v) (simp_all split: sum.splits)
  have c: "fst (NullableID_UnmarshalJSON unmarshal_string nid data) \<noteq> None \<longrightarrow>
      snd (NullableID_UnmarshalJSON unmarshal_string nid data) = nid"
    by (simp add: NullableID_UnmarshalJSON_def split: prod.splits option.splits)
  have d: "fst (NullableID_Scan nid v) \<noteq> None \<longrightarrow> snd (NullableID_Scan nid v) = nid"
    by (simp add: NullableID_Scan_def split: prod.splits option.splits)
  from a b c d show ?thesis by blast
qed

theorem error_leaves_receiver_witness:
  "fst (ID_UnmarshalJSON (\<lambda>d. Inl (JSONError d)) \<lparr>UUID = replicate 16 1\<rparr> ''x'') \<noteq> None \<and>
   snd (ID_UnmarshalJSON (\<lambda>d. Inl (JSONError d)) \<lparr>UUID = replicate 16 1\<rparr> ''x'')
     = \<lparr>UUID = replicate 16 1\<rparr> \<and>
   fst (ID_Scan \<lparr>UUID = replicate 16 1\<rparr> (GoBool True)) \<noteq> None \<and>
   snd (ID_Scan \<lparr>UUID = replicate 16 1\<rparr> (GoBool True)) = \<lparr>UUID = replicate 16 1\<rparr> \<and>
   fst (NullableID_UnmarshalJSON (\<lambda>d. Inl (JSONError d))
          \<lparr>ID = \<lparr>UUID = replicate 16 1\<rparr>, Valid = True\<rparr> ''x'') \<noteq> None \<and>
   snd (NullableID_UnmarshalJSON (\<lambda>d. Inl (JSONError d))
          \<lparr>ID = \<lparr>UUID = replicate 16 1\<rparr>, Valid = True\<rparr> ''x'')
     = \<lparr>ID = \<lparr>UUID = replicate 16 1\<rparr>, Valid = True\<rparr> \<and>
   fst (NullableID_Scan \<lparr>ID = \<lparr>UUID = replicate 16 1\<rparr>, Valid = True\<rparr> (GoBool True)) \<noteq> None \<and>
   snd (NullableID_Scan \<lparr>ID = \<lparr>UUID = replicate 16 1\<rparr>, Valid = True\<rparr> (GoBool True))
     = \<lparr>ID = \<lparr>UUID = replicate 16 1\<rparr>, Valid = True\<rparr>"
  using error_leaves_receiver
    [of "\<lambda>d. Inl (JSONError d)" "\<lparr>UUID = replicate 16 1\<rparr>" "''x''" "GoBool True"
        "\<lparr>ID = \<lparr>UUID = replicate 16 1\<rparr>, Valid = True\<rparr>"]
  by (simp add: ID_UnmarshalJSON_def NullableID_UnmarshalJSON_def NullableID_Scan_def)

text \<open>
  Claim C10. When \<^verbatim>\<open>NullableID.UnmarshalJSON\<close> receives the text \<^verbatim>\<open>null\<close>, or
  \<^verbatim>\<open>NullableID.Scan\<close> receives nil, only the \<^verbatim>\<open>Valid\<close> flag is set to false: the
  \<^verbatim>\<open>ID\<close> field keeps the value it had, also a non-zero one.
\<close>

theorem null_keeps_stored_id:
  "NullableID_UnmarshalJSON unmarshal_string nid ''null'' = (None, nid\<lparr>Valid := False\<rparr>) \<and>
   ID (snd (NullableID_UnmarshalJSON unmarshal_string nid ''null'')) = ID nid \<and>
   NullableID_Scan nid GoNil = (None, nid\<lparr>Valid := False\<rparr>) \<and>
   ID (snd (NullableID_Scan nid GoNil)) = ID nid"
  by (simp add: NullableID_UnmarshalJSON_def NullableID_Scan_def)

end
